theory Spec2Isabelle
  imports Complex_Main "HOL-Library.Sublist"
begin

section \<open>JavaScript values\<close>

text \<open>
  The numbers of the program are IEEE doubles. The model keeps the three special values
  apart and takes every other number as an exact rational: the comparisons, \<open>Math.min\<close>,
  \<open>Math.max\<close> and the truthiness test of the source are exact on doubles, so what the
  model leaves out is only the rounding of a quotient or a product to the nearest double
  (and the sign of zero).
\<close>

datatype jsnum = NaN | NegInf | Fin rat | PosInf

datatype jsval =
    JUndefined
  | JNull
  | JBool bool
  | JNum jsnum
  | JStr string
  | JArr "jsval list"
  | JObj "(string \<times> jsval) list"

text \<open>A thrown value: the error's \<open>name\<close> and its \<open>message\<close>.\<close>

datatype js_error = JsError string string

text \<open>\<open>ToBoolean\<close>: what \<open>if (x)\<close>, \<open>x && y\<close> and \<open>x || y\<close> test.\<close>

fun truthy :: "jsval \<Rightarrow> bool" where
  "truthy JUndefined = False"
| "truthy JNull = False"
| "truthy (JBool b) = b"
| "truthy (JNum n) = (n \<noteq> NaN \<and> n \<noteq> Fin 0)"
| "truthy (JStr s) = (s \<noteq> [])"
| "truthy (JArr xs) = True"
| "truthy (JObj fs) = True"

fun js_typeof :: "jsval \<Rightarrow> string" where
  "js_typeof JUndefined = ''undefined''"
| "js_typeof JNull = ''object''"
| "js_typeof (JBool b) = ''boolean''"
| "js_typeof (JNum n) = ''number''"
| "js_typeof (JStr s) = ''string''"
| "js_typeof (JArr xs) = ''object''"
| "js_typeof (JObj fs) = ''object''"

text \<open>
  The property read \<open>data.k\<close>, for the keys the program reads (\<open>status\<close>, \<open>procent\<close>,
  \<open>timestamp\<close>, \<open>probability\<close>, \<open>summary\<close>, \<open>data_comments\<close>): none of them is a
  built-in property of a string, a number, a boolean or an array, so the read gives
  \<open>undefined\<close> on those. Every such read of the source stands behind \<open>data &&\<close>, so it
  is never evaluated on \<open>null\<close> or \<open>undefined\<close>.
\<close>

fun get_prop :: "jsval \<Rightarrow> string \<Rightarrow> jsval" where
  "get_prop (JObj fs) k = (case map_of fs k of Some v \<Rightarrow> v | None \<Rightarrow> JUndefined)"
| "get_prop v k = JUndefined"

fun is_array :: "jsval \<Rightarrow> bool" where
  "is_array (JArr xs) = True"
| "is_array v = False"

subsection \<open>Arithmetic on numbers\<close>

fun js_lt :: "jsnum \<Rightarrow> jsnum \<Rightarrow> bool" where
  "js_lt NaN y = False"
| "js_lt x NaN = False"
| "js_lt PosInf y = False"
| "js_lt x NegInf = False"
| "js_lt NegInf y = True"
| "js_lt x PosInf = True"
| "js_lt (Fin a) (Fin b) = (a < b)"

fun js_ge :: "jsnum \<Rightarrow> jsnum \<Rightarrow> bool" where
  "js_ge NaN y = False"
| "js_ge x NaN = False"
| "js_ge x y = (\<not> js_lt x y)"

fun js_le :: "jsnum \<Rightarrow> jsnum \<Rightarrow> bool" where
  "js_le x y = js_ge y x"

text \<open>\<open>Math.min\<close> and \<open>Math.max\<close> of two arguments: \<open>NaN\<close> if either is.\<close>

fun math_min :: "jsnum \<Rightarrow> jsnum \<Rightarrow> jsnum" where
  "math_min NaN y = NaN"
| "math_min x NaN = NaN"
| "math_min x y = (if js_lt y x then y else x)"

fun math_max :: "jsnum \<Rightarrow> jsnum \<Rightarrow> jsnum" where
  "math_max NaN y = NaN"
| "math_max x NaN = NaN"
| "math_max x y = (if js_lt x y then y else x)"

text \<open>
  The source divides by the positive constants 20, 10000, 1000 and 100 only, and
  multiplies by the positive constants 0.3 and 1000 only: the model has these two
  operations with a positive rational as the second operand.
\<close>

fun div_pos :: "jsnum \<Rightarrow> rat \<Rightarrow> jsnum" where
  "div_pos (Fin a) c = Fin (a / c)"
| "div_pos x c = x"

fun mul_pos :: "jsnum \<Rightarrow> rat \<Rightarrow> jsnum" where
  "mul_pos (Fin a) c = Fin (a * c)"
| "mul_pos x c = x"

fun js_add :: "jsnum \<Rightarrow> jsnum \<Rightarrow> jsnum" where
  "js_add NaN y = NaN"
| "js_add x NaN = NaN"
| "js_add (Fin a) (Fin b) = Fin (a + b)"
| "js_add PosInf NegInf = NaN"
| "js_add NegInf PosInf = NaN"
| "js_add PosInf y = PosInf"
| "js_add NegInf y = NegInf"
| "js_add (Fin a) y = y"

text \<open>\<open>Math.round\<close>: the nearest integer, a half rounding up.\<close>

fun math_round :: "jsnum \<Rightarrow> jsnum" where
  "math_round (Fin a) = Fin (of_int \<lfloor>a + 1 / 2\<rfloor>)"
| "math_round x = x"

text \<open>\<open>x || d\<close> where \<open>x\<close> is a number: \<open>d\<close> when \<open>x\<close> is \<open>0\<close> or \<open>NaN\<close>.\<close>

definition num_or :: "jsnum \<Rightarrow> jsnum \<Rightarrow> jsnum" where
  "num_or x d = (if truthy (JNum x) then x else d)"


subsection \<open>\<open>parseFloat\<close>\<close>

text \<open>
  \<open>parseFloat\<close> is the platform's: it converts its argument to a string, skips leading
  white space and reads the longest prefix that is a decimal literal (sign, digits,
  fraction, exponent, or \<open>Infinity\<close>), giving \<open>NaN\<close> when there is none. A number
  parses to itself; \<open>undefined\<close>, \<open>null\<close>, a boolean and a plain object print as text
  with no numeric prefix; an array prints as its elements joined by commas, so it
  parses as its first element does.
\<close>

definition is_digit :: "char \<Rightarrow> bool" where
  "is_digit c = (c \<in> set ''0123456789'')"

definition is_space :: "char \<Rightarrow> bool" where
  "is_space c = (c \<in> set [CHR '' '', CHR 0x09, CHR 0x0A, CHR 0x0B, CHR 0x0C, CHR 0x0D])"

definition digit_val :: "char \<Rightarrow> nat" where
  "digit_val c = of_char c - 48"

definition digits_val :: "string \<Rightarrow> nat" where
  "digits_val ds = foldl (\<lambda>a c. 10 * a + digit_val c) 0 ds"

definition pow10 :: "int \<Rightarrow> rat" where
  "pow10 e = (if 0 \<le> e then 10 ^ nat e else 1 / 10 ^ nat (- e))"

definition leading_digits :: "string \<Rightarrow> int option" where
  "leading_digits r =
     (if r \<noteq> [] \<and> is_digit (hd r) then Some (int (digits_val (takeWhile is_digit r)))
      else None)"

text \<open>The exponent part after the mantissa; 0 when it is absent or has no digit.\<close>

definition parse_exponent :: "string \<Rightarrow> int" where
  "parse_exponent r =
     (case r of
        [] \<Rightarrow> 0
      | c # r1 \<Rightarrow>
          if c = CHR ''e'' \<or> c = CHR ''E'' then
            (case r1 of
               [] \<Rightarrow> 0
             | s # r2 \<Rightarrow>
                 if s = CHR ''-'' then (case leading_digits r2 of Some n \<Rightarrow> - n | None \<Rightarrow> 0)
                 else if s = CHR ''+'' then (case leading_digits r2 of Some n \<Rightarrow> n | None \<Rightarrow> 0)
                 else (case leading_digits r1 of Some n \<Rightarrow> n | None \<Rightarrow> 0))
          else 0)"

definition parse_float_str :: "string \<Rightarrow> jsnum" where
  "parse_float_str s =
     (let s1 = dropWhile is_space s;
          neg = (s1 \<noteq> [] \<and> hd s1 = CHR ''-'');
          s2 = (if s1 \<noteq> [] \<and> (hd s1 = CHR ''-'' \<or> hd s1 = CHR ''+'') then tl s1 else s1)
      in if prefix ''Infinity'' s2 then (if neg then NegInf else PosInf)
         else
           let ip = takeWhile is_digit s2;
               r1 = dropWhile is_digit s2;
               fp = (case r1 of [] \<Rightarrow> [] | c # r \<Rightarrow> if c = CHR ''.'' then takeWhile is_digit r else []);
               r2 = (case r1 of [] \<Rightarrow> [] | c # r \<Rightarrow> if c = CHR ''.'' then dropWhile is_digit r else r1)
           in if ip = [] \<and> fp = [] then NaN
              else
                let m = of_nat (digits_val (ip @ fp)) / 10 ^ length fp * pow10 (parse_exponent r2)
                in Fin (if neg then - m else m))"

fun parseFloat :: "jsval \<Rightarrow> jsnum" where
  "parseFloat (JNum n) = n"
| "parseFloat (JStr s) = parse_float_str s"
| "parseFloat (JArr (x # xs)) = parseFloat x"
| "parseFloat v = NaN"

section \<open>The local estimator and the response check\<close>

definition to_lower :: "string \<Rightarrow> string" where
  "to_lower s =
     map (\<lambda>c. if (65::nat) \<le> of_char c \<and> of_char c \<le> (90::nat)
              then char_of (of_char c + (32::nat)) else c) s"

text \<open>
  \<open>mockInfer(formData)\<close>. The random delay it awaits first does not reach the result.
  \<open>to_str\<close> is the platform's conversion of a value to text inside a template literal and
  \<open>time_str\<close> what \<open>new Date().toLocaleTimeString()\<close> returns; the two signs of the
  comments that are not ASCII are written as their UTF-8 bytes.
\<close>

definition mockInfer :: "(jsval \<Rightarrow> string) \<Rightarrow> string \<Rightarrow> (string \<times> jsval) list \<Rightarrow> jsval" where
  "mockInfer to_str time_str formData =
     (let fld = (\<lambda>k. to_str (get_prop (JObj formData) k));
          snr = num_or (parseFloat (get_prop (JObj formData) ''snr'')) (Fin 10);
          transitDepth = num_or (parseFloat (get_prop (JObj formData) ''transit_depth'')) (Fin 5000);
          snrFactor = math_min (div_pos snr 20) (Fin 1);
          depthFactor = math_min (div_pos transitDepth 10000) (Fin 1);
          baseProbability =
            js_add (js_add (Fin (3 / 10)) (mul_pos snrFactor (3 / 10))) (mul_pos depthFactor (3 / 10));
          probability = div_pos (math_round (mul_pos baseProbability 1000)) 1000;
          confidenceLevel =
            (if js_ge probability (Fin (3 / 4)) then ''High likelihood''
             else if js_ge probability (Fin (1 / 2)) then ''Moderate likelihood''
             else ''Low likelihood'');
          signalStrength =
            (if js_ge probability (Fin (3 / 4)) then ''Strong''
             else if js_ge probability (Fin (1 / 2)) then ''Moderate''
             else ''Weak'');
          comments =
            [signalStrength @ '' transit signal detected for '' @ fld ''object_id'',
             ''Signal-to-noise ratio: '' @ fld ''snr'',
             ''Transit depth: '' @ fld ''transit_depth'' @ '' ppm'',
             ''Orbital period: '' @ fld ''orbital_period'' @ '' days'',
             ''Transit duration: '' @ fld ''transit_duration'' @ '' hours'',
             ''Planet radius: '' @ fld ''planet_radius'' @ '' R'' @ [CHR 0xE2, CHR 0x8A, CHR 0x95],
             ''Equilibrium temperature: '' @ fld ''eq_temperature'' @ '' K'',
             ''Stellar properties: '' @ fld ''stellar_mass'' @ '' M'' @ [CHR 0xE2, CHR 0x98, CHR 0x89]
               @ '', '' @ fld ''stellar_temp'' @ '' K'',
             ''Processing completed at '' @ time_str]
      in JObj
           [(''probability'', JNum probability),
            (''summary'',
               JStr (confidenceLevel @ '' of confirmed exoplanet based on '' @ to_lower signalStrength
                     @ '' transit signature and favorable orbital parameters.'')),
            (''data_comments'', JArr (map JStr comments))])"

text \<open>
  \<open>validateResponse(data)\<close> returns the value of the \<open>&&\<close> chain: \<open>data\<close> itself when
  it is falsy, otherwise the boolean of the remaining tests.
\<close>

definition validateResponse :: "jsval \<Rightarrow> jsval" where
  "validateResponse data =
     (if \<not> truthy data then data
      else JBool
        (case get_prop data ''probability'' of
           JNum p \<Rightarrow>
             js_ge p (Fin 0) \<and> js_le p (Fin 1)
             \<and> js_typeof (get_prop data ''summary'') = ''string''
             \<and> is_array (get_prop data ''data_comments'')
         | _ \<Rightarrow> False))"

section \<open>The result shown for a completed response\<close>

text \<open>
  The branch of \<open>processData\<close> taken when the poll returned a response with a number in
  \<open>procent\<close>: the \<open>results\<close> object it builds (\<open>None\<close>: the other branch is taken).
\<close>

definition derived_probability :: "jsnum \<Rightarrow> jsnum" where
  "derived_probability procent = math_max (Fin 0) (math_min (Fin 1) (div_pos procent 100))"

definition processData_results :: "(jsval \<Rightarrow> string) \<Rightarrow> jsval \<Rightarrow> jsval option" where
  "processData_results to_str serverResp =
     (if truthy serverResp \<and> js_typeof (get_prop serverResp ''procent'') = ''number'' then
        (case get_prop serverResp ''procent'' of
           JNum procent \<Rightarrow>
             Some (JObj
               [(''probability'', JNum (derived_probability procent)),
                (''summary'', JStr ''Server analysis result (from Google Sheet).''),
                (''data_comments'',
                   JArr
                     [JStr (''Server-provided procent: '' @ to_str (JNum procent) @ ''%''),
                      if truthy (get_prop serverResp ''timestamp'')
                      then JStr (''Timestamp: '' @ to_str (get_prop serverResp ''timestamp''))
                      else JStr ''No timestamp provided''])])
         | _ \<Rightarrow> None)
      else None)"

text \<open>The clamp of the specification: a value below the range, above it, or inside.\<close>

definition clamp :: "rat \<Rightarrow> rat \<Rightarrow> rat \<Rightarrow> rat" where
  "clamp x lo hi = (if x < lo then lo else if hi < x then hi else x)"


section \<open>Configuration\<close>

definition GOOGLE_SHEETS_ENDPOINT :: string where
  "GOOGLE_SHEETS_ENDPOINT =
     ''https://script.google.com/macros/s/AKfycbzBhtoJ1pvYZJmlcGBwc5Z3YUk2kE7euqbP6cZyFxDBVEG5RYLlA8M9gGDczUVKfNRY/exec''"

definition GOOGLE_SHEETS_GET_ENDPOINT :: string where
  "GOOGLE_SHEETS_GET_ENDPOINT =
     ''https://script.google.com/macros/library/d/1HZQfrnjnn_OLjBzkCXK8Tp6LIusSa6gJf4ulKMftbIs8Uypy-JfgPTmy/4''"

definition DEFAULT_POLL_INTERVAL_MS :: int where
  "DEFAULT_POLL_INTERVAL_MS = 10000"

definition DEFAULT_POLL_TIMEOUT_MS :: int where
  "DEFAULT_POLL_TIMEOUT_MS = 120000"

text \<open>
  The functions below take the endpoint as an argument, so that a deployment with another
  constant (an empty one, a placeholder, a URL with a query) is an input like any other.
\<close>

text \<open>\<open>s.includes(sub)\<close>: \<open>sub\<close> occurs in \<open>s\<close> as a contiguous run.\<close>

definition str_includes :: "string \<Rightarrow> string \<Rightarrow> bool" where
  "str_includes s sub = sublist sub s"

text \<open>A number printed inside a template literal (a clock reading, a status code).\<close>

fun dec :: "nat \<Rightarrow> string" where
  "dec n = (if n < 10 then [char_of (48 + n)] else dec (n div 10) @ [char_of (48 + n mod 10)])"

section \<open>What the program does to the outside\<close>

text \<open>
  Every function returns, next to its result, the events it caused, in order: the
  requests that leave the page, the calls of the two callbacks of the poll loop, and the
  throw of the loop's timeout error with the clock reading that the failed loop
  condition had read. \<open>OnPending\<close> and \<open>OnError\<close> record a call of the loop's local
  \<open>onPending\<close> and \<open>onError\<close>, which are the caller's functions or the empty default.
\<close>

datatype event =
    CallFetcher
  | NetScript string
  | NetGet string
  | NetPost string bool
  | OnPending
  | OnError js_error
  | TimedOut nat

fun is_network :: "event \<Rightarrow> bool" where
  "is_network (NetScript u) = True"
| "is_network (NetGet u) = True"
| "is_network (NetPost u m) = True"
| "is_network e = False"

section \<open>The cross-origin bridge\<close>

text \<open>
  The state that \<open>fetchServerResponseJSONP\<close> sets up and its three handlers share: the
  script element in the document, the entry \<open>window[callbackName]\<close>, the timer, and the
  promise (\<open>None\<close> while pending).
\<close>

record bridge =
  script_attached :: bool
  handler_registered :: bool
  timer_armed :: bool
  settled :: "(js_error + jsval) option"

text \<open>
  What the event loop can deliver to the bridge: the loaded script calls the callback
  with a payload, the timer elapses, the script fails to load.
\<close>

datatype bridge_event = CallbackInvoked jsval | TimerFired | ScriptFailed

definition cleanup :: "bridge \<Rightarrow> bridge" where
  "cleanup b = b\<lparr>script_attached := False, handler_registered := False, timer_armed := False\<rparr>"

text \<open>\<open>resolve\<close> and \<open>reject\<close> of a promise: the first call settles it, a later one is ignored.\<close>

definition settle :: "js_error + jsval \<Rightarrow> bridge \<Rightarrow> bridge" where
  "settle r b = (if settled b = None then b\<lparr>settled := Some r\<rparr> else b)"

definition jsonp_timeout_error :: js_error where
  "jsonp_timeout_error = JsError ''Error'' ''JSONP request timed out''"

definition jsonp_load_error :: js_error where
  "jsonp_load_error = JsError ''Error'' ''JSONP script load error''"

definition jsonp_config_error :: js_error where
  "jsonp_config_error = JsError ''Error'' ''GOOGLE_SHEETS_GET_ENDPOINT not configured.''"

text \<open>
  One event reaching the bridge. A cleared timer never fires; a call of the callback
  after \<open>delete window[callbackName]\<close> fails inside the injected script and reaches no
  handler; \<open>script.onerror\<close> stays on the element, so it runs whenever the load fails.
\<close>

fun deliver :: "bridge \<Rightarrow> bridge_event \<Rightarrow> bridge" where
  "deliver b TimerFired =
     (if timer_armed b then settle (Inl jsonp_timeout_error) (cleanup b) else b)"
| "deliver b (CallbackInvoked d) =
     (if handler_registered b then settle (Inr d) (cleanup b) else b)"
| "deliver b ScriptFailed = settle (Inl jsonp_load_error) (cleanup b)"

definition bridge_started :: bridge where
  "bridge_started =
     \<lparr>script_attached = True, handler_registered = True, timer_armed = True, settled = None\<rparr>"

definition bridge_refused :: bridge where
  "bridge_refused =
     \<lparr>script_attached = False, handler_registered = False, timer_armed = False,
      settled = Some (Inl jsonp_config_error)\<rparr>"

text \<open>
  The outside of one bridge call: the token drawn from \<open>Math.random\<close>, the events that
  reach the page before the timeout elapses, and those that come after. The timer is the
  bridge's own, so the model fires it between the two.
\<close>

record jsonp_world =
  token :: string
  early :: "bridge_event list"
  late :: "bridge_event list"

definition jsonp_url :: "(string \<Rightarrow> string) \<Rightarrow> string \<Rightarrow> string \<Rightarrow> string \<Rightarrow> nat \<Rightarrow> string" where
  "jsonp_url encodeURIComponent endpoint object_id callbackName now =
     endpoint @ (if str_includes endpoint ''?'' then ''&'' else ''?'')
       @ ''object_id='' @ encodeURIComponent object_id
       @ ''&callback='' @ callbackName @ ''&ts='' @ dec now"

definition fetchServerResponseJSONP ::
  "(string \<Rightarrow> string) \<Rightarrow> string \<Rightarrow> string \<Rightarrow> nat \<Rightarrow> jsonp_world \<Rightarrow> bridge \<times> event list" where
  "fetchServerResponseJSONP encodeURIComponent endpoint object_id now w =
     (if endpoint = [] then (bridge_refused, [])
      else
        (foldl deliver bridge_started (early w @ TimerFired # late w),
         [NetScript (jsonp_url encodeURIComponent endpoint object_id (''gs_cb_'' @ token w) now)]))"

section \<open>The response fetcher\<close>

text \<open>
  The direct transport's outside: \<open>fetch\<close> rejects, or answers with a status, the text
  of the body (empty when reading it fails) and what \<open>res.json()\<close> gives.
\<close>

datatype direct_outcome =
    NetworkFailure js_error
  | Response nat string "js_error + jsval"

record fetch_world =
  jsonp :: jsonp_world
  jsonp_ms :: nat
  direct :: direct_outcome
  direct_ms :: nat

definition get_unconfigured :: "string \<Rightarrow> bool" where
  "get_unconfigured endpoint =
     (endpoint = []
      \<or> str_includes endpoint ''YOUR_GET_DEPLOY_ID''
      \<or> str_includes endpoint ''YOUR_GET_DEPLOY_ID_HERE''
      \<or> str_includes endpoint ''YOUR_GET_DEPLOY_URL'')"

definition get_config_error :: js_error where
  "get_config_error = JsError ''Error'' ''GOOGLE_SHEETS_GET_ENDPOINT not configured in api.js.''"

definition direct_url :: "(string \<Rightarrow> string) \<Rightarrow> string \<Rightarrow> string \<Rightarrow> nat \<Rightarrow> string" where
  "direct_url encodeURIComponent endpoint object_id now =
     endpoint @ ''?object_id='' @ encodeURIComponent object_id @ ''&ts='' @ dec now"

definition direct_result :: "direct_outcome \<Rightarrow> js_error + jsval" where
  "direct_result d =
     (case d of
        NetworkFailure e \<Rightarrow> Inl e
      | Response status txt body \<Rightarrow>
          if 200 \<le> status \<and> status \<le> 299 then body
          else Inl (JsError ''Error'' (''GET failed ('' @ dec status @ ''): '' @ txt)))"

text \<open>
  \<open>fetchServerResponse(object_id)\<close> called at clock reading \<open>now\<close>: its outcome (\<open>None\<close>
  if the awaited bridge promise never settled), its events and the milliseconds it took.
\<close>

definition fetchServerResponse ::
  "(string \<Rightarrow> string) \<Rightarrow> string \<Rightarrow> string \<Rightarrow> nat \<Rightarrow> fetch_world
     \<Rightarrow> (js_error + jsval) option \<times> event list \<times> nat" where
  "fetchServerResponse encodeURIComponent endpoint object_id now w =
     (if get_unconfigured endpoint then (Some (Inl get_config_error), [], 0)
      else
        (case fetchServerResponseJSONP encodeURIComponent endpoint object_id now (jsonp w) of
           (b, evs) \<Rightarrow>
             (case settled b of
                None \<Rightarrow> (None, evs, jsonp_ms w)
              | Some (Inr data) \<Rightarrow> (Some (Inr data), evs, jsonp_ms w)
              | Some (Inl jsonpErr) \<Rightarrow>
                  (Some (direct_result (direct w)),
                   evs @ [NetGet (direct_url encodeURIComponent endpoint object_id (now + jsonp_ms w))],
                   jsonp_ms w + direct_ms w))))"

section \<open>The submission logger\<close>

datatype post_outcome = PostFailure js_error | PostResponse nat

text \<open>
  The outside of one call: what the normal POST does and, when it is reached, whether the
  \<open>no-cors\<close> POST throws. The body (the form fields and a time stamp) decides nothing here.
\<close>

record log_world =
  normal_post :: post_outcome
  nocors_post :: "js_error option"

definition post_unconfigured :: "string \<Rightarrow> bool" where
  "post_unconfigured endpoint =
     (endpoint = []
      \<or> str_includes endpoint ''YOUR_POST_DEPLOY_ID''
      \<or> str_includes endpoint ''YOUR_POST_DEPLOY_ID_HERE''
      \<or> str_includes endpoint ''YOUR_POST_DEPLOY_URL'')"

definition logToGoogleSheets :: "string \<Rightarrow> log_world \<Rightarrow> bool \<times> event list" where
  "logToGoogleSheets endpoint w =
     (if post_unconfigured endpoint then (False, [])
      else if (case normal_post w of PostResponse status \<Rightarrow> 200 \<le> status \<and> status \<le> 299
               | PostFailure e \<Rightarrow> False)
      then (True, [NetPost endpoint False])
      else
        (case nocors_post w of
           None \<Rightarrow> (True, [NetPost endpoint False, NetPost endpoint True])
         | Some e \<Rightarrow> (False, [NetPost endpoint False, NetPost endpoint True])))"

section \<open>The poll loop\<close>

text \<open>\<open>a || b\<close>: \<open>a\<close> when it is truthy, otherwise \<open>b\<close>.\<close>

definition js_or :: "jsval \<Rightarrow> jsval \<Rightarrow> jsval" where
  "js_or a b = (if truthy a then a else b)"

text \<open>
  The two numeric fields of the \<open>options\<close> object (\<open>undefined\<close> when the caller left one
  out), and the values that the first two lines of \<open>pollServerResponse\<close> make of them.
\<close>

record poll_options =
  opt_interval :: jsval
  opt_timeout :: jsval

definition poll_interval :: "poll_options \<Rightarrow> jsval" where
  "poll_interval options =
     js_or (opt_interval options) (JNum (Fin (of_int DEFAULT_POLL_INTERVAL_MS)))"

definition poll_timeout :: "poll_options \<Rightarrow> jsval" where
  "poll_timeout options =
     js_or (opt_timeout options) (JNum (Fin (of_int DEFAULT_POLL_TIMEOUT_MS)))"

text \<open>
  The loop is modelled for an interval and a timeout that are whole numbers of
  milliseconds, as the clock readings and the documented options are; \<open>whole_ms\<close> reads
  such a value and is \<open>None\<close> on any other.
\<close>

definition whole_ms :: "jsval \<Rightarrow> int option" where
  "whole_ms v =
     (case v of
        JNum (Fin q) \<Rightarrow> if of_int \<lfloor>q\<rfloor> = q then Some \<lfloor>q\<rfloor> else None
      | _ \<Rightarrow> None)"

definition poll_timeout_error :: js_error where
  "poll_timeout_error = JsError ''Error'' ''Polling timed out (no server response within timeout).''"

text \<open>
  What the caller's callbacks do when the loop calls them in one iteration: the call of
  \<open>onPending\<close> for an explicit pending marker, the call of \<open>onPending\<close> at the end of
  the \<open>try\<close> body and the call of \<open>onError\<close> in the \<open>catch\<close> each return (\<open>None\<close>)
  or throw. The empty default that stands in for a missing callback always returns.
\<close>

record callback_world =
  marker_call :: "js_error option"
  final_call :: "js_error option"
  error_call :: "js_error option"

text \<open>
  The \<open>catch\<close>: it calls \<open>onError\<close> with the error it caught. When that call returns,
  the loop goes on to the sleep (\<open>None\<close>); when it throws, nothing catches the throw and
  it ends \<open>pollServerResponse\<close>.
\<close>

definition poll_catch :: "callback_world \<Rightarrow> js_error \<Rightarrow> (js_error + jsval) option \<times> event list" where
  "poll_catch c err =
     (case error_call c of
        None \<Rightarrow> (None, [OnError err])
      | Some thrown \<Rightarrow> (Some (Inl thrown), [OnError err]))"

text \<open>
  The body of the \<open>try\<close> after the awaited fetch, and the \<open>catch\<close>: how the iteration
  ends (\<open>None\<close>: it goes on to the sleep; \<open>Inr\<close>: the loop returns the response;
  \<open>Inl\<close>: an error leaves the loop) and the callbacks called. A throw of \<open>onPending\<close>
  is inside the \<open>try\<close>, so it is caught like an error of the fetch.
\<close>

definition poll_attempt ::
  "callback_world \<Rightarrow> js_error + jsval \<Rightarrow> (js_error + jsval) option \<times> event list" where
  "poll_attempt c r =
     (case r of
        Inl err \<Rightarrow> poll_catch c err
      | Inr data \<Rightarrow>
          (let marker = (truthy data \<and> get_prop data ''status'' = JStr ''pending'');
               marked = (if marker then [OnPending] else [])
           in case (if marker then marker_call c else None) of
                Some thrown \<Rightarrow>
                  (case poll_catch c thrown of (out, evs) \<Rightarrow> (out, marked @ evs))
              | None \<Rightarrow>
                  if truthy data \<and> js_typeof (get_prop data ''procent'') = ''number''
                  then (Some (Inr data), marked)
                  else
                    (case final_call c of
                       Some thrown \<Rightarrow>
                         (case poll_catch c thrown of
                            (out, evs) \<Rightarrow> (out, marked @ [OnPending] @ evs))
                     | None \<Rightarrow> (None, marked @ [OnPending]))))"

text \<open>
  One tick of the outside: what the fetch of this iteration meets, what the callbacks do
  in it, and by how many milliseconds the timer of the sleep after it resolves late.
\<close>

record tick =
  fetch :: fetch_world
  calls :: callback_world
  timer_late :: nat

text \<open>
  The delay that \<open>setTimeout(r, interval)\<close> waits for at least, for a whole number of
  milliseconds: the browser converts the argument to a signed 32-bit integer, which wraps
  around above 2147483647, and takes a negative delay as 0.
\<close>

definition timer_delay :: "int \<Rightarrow> nat" where
  "timer_delay interval = nat ((interval + 2147483648) mod 4294967296 - 2147483648)"

text \<open>
  The \<open>while\<close> loop, entered at clock reading \<open>now\<close> with \<open>start\<close> read before. The ticks
  are the fuel: \<open>None\<close> means that they ran out (or that a fetch never returned) before
  the loop did.
\<close>

fun poll_loop ::
  "(string \<Rightarrow> string) \<Rightarrow> string \<Rightarrow> string \<Rightarrow> int \<Rightarrow> int \<Rightarrow> nat \<Rightarrow> tick list \<Rightarrow> nat
     \<Rightarrow> (js_error + jsval) option \<times> event list" where
  "poll_loop enc endpoint object_id interval timeout start [] now =
     (if int now - int start < timeout then (None, [])
      else (Some (Inl poll_timeout_error), [TimedOut now]))"
| "poll_loop enc endpoint object_id interval timeout start (k # ks) now =
     (if int now - int start < timeout then
        (case fetchServerResponse enc endpoint object_id now (fetch k) of
           (None, evs, ms) \<Rightarrow> (None, CallFetcher # evs)
         | (Some r, evs, ms) \<Rightarrow>
             (case poll_attempt (calls k) r of
                (Some out, cbs) \<Rightarrow> (Some out, CallFetcher # evs @ cbs)
              | (None, cbs) \<Rightarrow>
                  (case poll_loop enc endpoint object_id interval timeout start ks
                          (now + ms + timer_delay interval + timer_late k) of
                     (res, rest) \<Rightarrow> (res, CallFetcher # evs @ cbs @ rest))))
      else (Some (Inl poll_timeout_error), [TimedOut now]))"

text \<open>
  \<open>pollServerResponse(object_id, options)\<close> called at clock reading \<open>start\<close>. The outer
  \<open>None\<close>: an interval or a timeout that is not a whole number of milliseconds, which
  the model of the loop does not cover.
\<close>

definition pollServerResponse ::
  "(string \<Rightarrow> string) \<Rightarrow> string \<Rightarrow> string \<Rightarrow> poll_options \<Rightarrow> nat \<Rightarrow> tick list
     \<Rightarrow> ((js_error + jsval) option \<times> event list) option" where
  "pollServerResponse enc endpoint object_id options start ticks =
     (case (whole_ms (poll_interval options), whole_ms (poll_timeout options)) of
        (Some interval, Some timeout) \<Rightarrow>
          Some (poll_loop enc endpoint object_id interval timeout start ticks start)
      | _ \<Rightarrow> None)"

section \<open>Reading the specification\<close>

text \<open>The outcome that a terminal event of the bridge stands for.\<close>

fun terminal_outcome :: "bridge_event \<Rightarrow> js_error + jsval" where
  "terminal_outcome (CallbackInvoked d) = Inr d"
| "terminal_outcome TimerFired = Inl jsonp_timeout_error"
| "terminal_outcome ScriptFailed = Inl jsonp_load_error"

text \<open>The terminal field of a response: the number an object holds under \<open>procent\<close>.\<close>

fun terminal_field :: "jsval \<Rightarrow> jsnum option" where
  "terminal_field (JObj fs) =
     (case map_of fs ''procent'' of Some (JNum n) \<Rightarrow> Some n | _ \<Rightarrow> None)"
| "terminal_field v = None"

text \<open>The explicit pending marker of a response.\<close>

fun pending_marker :: "jsval \<Rightarrow> bool" where
  "pending_marker (JObj fs) = (map_of fs ''status'' = Some (JStr ''pending''))"
| "pending_marker v = False"

section \<open>Test doubles\<close>

text \<open>
  Outsides for running the functions: a server that answers the bridge at once with a
  given payload, and one that fails both transports.
\<close>

definition answering :: "jsval \<Rightarrow> fetch_world" where
  "answering d =
     \<lparr>jsonp = \<lparr>token = ''k3x9q2ab'', early = [CallbackInvoked d], late = []\<rparr>,
      jsonp_ms = 0,
      direct = NetworkFailure (JsError ''TypeError'' ''Failed to fetch''),
      direct_ms = 0\<rparr>"

definition failing :: fetch_world where
  "failing =
     \<lparr>jsonp = \<lparr>token = ''k3x9q2ab'', early = [ScriptFailed], late = []\<rparr>,
      jsonp_ms = 3,
      direct = Response 404 ''Not Found'' (Inl (JsError ''SyntaxError'' ''Unexpected token N'')),
      direct_ms = 2\<rparr>"

text \<open>\<open>encodeURIComponent\<close> on identifiers made of unreserved characters only.\<close>

definition plain :: "string \<Rightarrow> string" where
  "plain s = s"

definition pending_response :: jsval where
  "pending_response = JObj [(''status'', JStr ''pending'')]"

definition complete_response :: jsval where
  "complete_response =
     JObj [(''object_id'', JStr ''TOI-700''), (''procent'', JNum (Fin (436 / 5))),
           (''timestamp'', JStr ''2024-01-01T00:00:00Z'')]"

text \<open>A response that names its number \<open>percent\<close>, and one whose \<open>procent\<close> is not finite.\<close>

definition percent_response :: jsval where
  "percent_response =
     JObj [(''object_id'', JStr ''TOI-700''), (''percent'', JNum (Fin (436 / 5)))]"

definition infinite_response :: jsval where
  "infinite_response = JObj [(''object_id'', JStr ''TOI-700''), (''procent'', JNum PosInf)]"

text \<open>
  The conversion to text on what a submitted form holds: a string stays as it is, and a
  field the form lacks prints as \<open>undefined\<close>.
\<close>

definition field_text :: "jsval \<Rightarrow> string" where
  "field_text v = (case v of JStr s \<Rightarrow> s | _ \<Rightarrow> ''undefined'')"

text \<open>A form with a negative signal-to-noise ratio, and an endpoint with a query.\<close>

definition negative_snr_form :: "(string \<times> jsval) list" where
  "negative_snr_form =
     [(''object_id'', JStr ''TOI-700''), (''snr'', JStr ''-100''), (''transit_depth'', JStr ''5000'')]"

definition query_endpoint :: string where
  "query_endpoint = ''https://script.google.com/macros/s/AKfycb/exec?sheet=ServerResponses''"

text \<open>Callbacks that return, and an \<open>onError\<close> that throws.\<close>

definition returning :: callback_world where
  "returning = \<lparr>marker_call = None, final_call = None, error_call = None\<rparr>"

definition onError_throwing :: callback_world where
  "onError_throwing =
     \<lparr>marker_call = None, final_call = None,
      error_call = Some (JsError ''TypeError'' ''status is not defined'')\<rparr>"

text \<open>
  A tick with callbacks that return and a timer that is on time, and one whose timer is
  late by a given number of milliseconds.
\<close>

definition every :: "fetch_world \<Rightarrow> tick" where
  "every w = \<lparr>fetch = w, calls = returning, timer_late = 0\<rparr>"

definition late_by :: "nat \<Rightarrow> fetch_world \<Rightarrow> tick" where
  "late_by n w = \<lparr>fetch = w, calls = returning, timer_late = n\<rparr>"

definition accepting :: log_world where
  "accepting = \<lparr>normal_post = PostResponse 200, nocors_post = None\<rparr>"

section \<open>The bridge settles once\<close>

lemma deliver_started:
  "deliver bridge_started e =
     \<lparr>script_attached = False, handler_registered = False, timer_armed = False,
      settled = Some (terminal_outcome e)\<rparr>"
  by (cases e) (simp_all add: bridge_started_def settle_def cleanup_def)

lemma deliver_torn_down:
  "\<not> script_attached b \<Longrightarrow> \<not> handler_registered b \<Longrightarrow> \<not> timer_armed b \<Longrightarrow> settled b \<noteq> None
     \<Longrightarrow> deliver b e = b"
  by (cases e) (auto simp: settle_def cleanup_def)

lemma foldl_deliver_torn_down:
  "\<not> script_attached b \<Longrightarrow> \<not> handler_registered b \<Longrightarrow> \<not> timer_armed b \<Longrightarrow> settled b \<noteq> None
     \<Longrightarrow> foldl deliver b es = b"
  by (induction es) (simp_all add: deliver_torn_down)

lemma bridge_run:
  "foldl deliver bridge_started (e # es) =
     \<lparr>script_attached = False, handler_registered = False, timer_armed = False,
      settled = Some (terminal_outcome e)\<rparr>"
  by (simp add: deliver_started foldl_deliver_torn_down)

lemma bridge_events_Cons: "\<exists>e es. early w @ TimerFired # late w = e # es"
  by (cases "early w") simp_all

lemma jsonp_settles:
  "settled (fst (fetchServerResponseJSONP enc endpoint object_id now w)) \<noteq> None"
proof -
  obtain e es where "early w @ TimerFired # late w = e # es"
    using bridge_events_Cons by blast
  then show ?thesis
    by (simp add: fetchServerResponseJSONP_def bridge_refused_def bridge_run del: foldl_Cons)
qed

text \<open>
  C2. For a call of the bridge with a non-empty endpoint, whatever reaches the page and in
  whatever order (the callback before the timer or after it): the promise is settled with
  the outcome of the first event alone, which is the payload, the timeout error or the
  load error; after that first event the script element is out of the document, the window
  callback is gone and the timer is cleared; every later event leaves the state as it is;
  and a second cleanup changes nothing.
\<close>

theorem C2_bridge_settles_once:
  assumes "endpoint \<noteq> []"
  shows "(let evs = early w @ TimerFired # late w;
              b = fst (fetchServerResponseJSONP enc endpoint object_id now w)
          in settled b = Some (terminal_outcome (hd evs))
             \<and> \<not> script_attached b \<and> \<not> handler_registered b \<and> \<not> timer_armed b
             \<and> (\<forall>n. 0 < n \<longrightarrow> foldl deliver bridge_started (take n evs) = b)
             \<and> cleanup b = b)"
proof -
  obtain e es where evs: "early w @ TimerFired # late w = e # es"
    using bridge_events_Cons by blast
  have first: "foldl deliver bridge_started (take n (e # es)) = foldl deliver bridge_started (e # es)"
    if "0 < n" for n
  proof -
    from that obtain m where "n = Suc m" by (cases n) auto
    then show ?thesis by (simp add: bridge_run del: foldl_Cons)
  qed
  show ?thesis
    using assms first
    by (simp add: fetchServerResponseJSONP_def evs bridge_run cleanup_def Let_def del: foldl_Cons)
qed

text \<open>
  At the endpoint of the source, with the timer winning the race against the callback:
  the call is rejected with the timeout error and the late callback changes nothing.
\<close>

theorem C2_bridge_settles_once_witness:
  "GOOGLE_SHEETS_GET_ENDPOINT \<noteq> []
   \<and> settled (fst (fetchServerResponseJSONP plain GOOGLE_SHEETS_GET_ENDPOINT ''TOI-700'' 1000
        \<lparr>token = ''k3x9q2ab'', early = [], late = [CallbackInvoked pending_response]\<rparr>))
       = Some (Inl jsonp_timeout_error)
   \<and> \<not> script_attached (fst (fetchServerResponseJSONP plain GOOGLE_SHEETS_GET_ENDPOINT ''TOI-700'' 1000
        \<lparr>token = ''k3x9q2ab'', early = [], late = [CallbackInvoked pending_response]\<rparr>))
   \<and> \<not> handler_registered (fst (fetchServerResponseJSONP plain GOOGLE_SHEETS_GET_ENDPOINT ''TOI-700'' 1000
        \<lparr>token = ''k3x9q2ab'', early = [], late = [CallbackInvoked pending_response]\<rparr>))
   \<and> \<not> timer_armed (fst (fetchServerResponseJSONP plain GOOGLE_SHEETS_GET_ENDPOINT ''TOI-700'' 1000
        \<lparr>token = ''k3x9q2ab'', early = [], late = [CallbackInvoked pending_response]\<rparr>))"
proof -
  have configured: "GOOGLE_SHEETS_GET_ENDPOINT \<noteq> []"
    by (simp add: GOOGLE_SHEETS_GET_ENDPOINT_def)
  show ?thesis
    using configured
      C2_bridge_settles_once [OF configured, of
        "\<lparr>token = ''k3x9q2ab'', early = [], late = [CallbackInvoked pending_response]\<rparr>"
        plain "''TOI-700''" 1000]
    by (simp add: Let_def)
qed

section \<open>The fetcher and the logger without an endpoint\<close>

lemma placeholder_found:
  "str_includes ''https://script.google.com/macros/s/YOUR_POST_DEPLOY_ID/exec'' ''YOUR_POST_DEPLOY_ID''"
  unfolding str_includes_def by code_simp

text \<open>
  C8. When the GET endpoint is empty or contains one of the placeholder markers the
  fetcher tests for, \<open>fetchServerResponse\<close> fails at once with the configuration error;
  when the POST endpoint is empty or contains one of the markers the logger tests for,
  \<open>logToGoogleSheets\<close> returns \<open>false\<close> at once; neither makes a network call.
\<close>

theorem C8_unconfigured_endpoint_short_circuits:
  "(get_endpoint = [] \<or> str_includes get_endpoint ''YOUR_GET_DEPLOY_ID''
      \<or> str_includes get_endpoint ''YOUR_GET_DEPLOY_ID_HERE''
      \<or> str_includes get_endpoint ''YOUR_GET_DEPLOY_URL''
    \<longrightarrow> fst (fetchServerResponse enc get_endpoint object_id now w) = Some (Inl get_config_error)
        \<and> filter is_network (fst (snd (fetchServerResponse enc get_endpoint object_id now w))) = [])
   \<and> (post_endpoint = [] \<or> str_includes post_endpoint ''YOUR_POST_DEPLOY_ID''
      \<or> str_includes post_endpoint ''YOUR_POST_DEPLOY_ID_HERE''
      \<or> str_includes post_endpoint ''YOUR_POST_DEPLOY_URL''
    \<longrightarrow> fst (logToGoogleSheets post_endpoint lw) = False
        \<and> filter is_network (snd (logToGoogleSheets post_endpoint lw)) = [])"
  by (simp add: fetchServerResponse_def get_unconfigured_def logToGoogleSheets_def
        post_unconfigured_def)

theorem C8_unconfigured_endpoint_short_circuits_witness:
  "fst (fetchServerResponse plain [] ''TOI-700'' 1000 (answering pending_response))
     = Some (Inl get_config_error)
   \<and> filter is_network
        (fst (snd (fetchServerResponse plain [] ''TOI-700'' 1000 (answering pending_response)))) = []
   \<and> str_includes ''https://script.google.com/macros/s/YOUR_POST_DEPLOY_ID/exec'' ''YOUR_POST_DEPLOY_ID''
   \<and> fst (logToGoogleSheets ''https://script.google.com/macros/s/YOUR_POST_DEPLOY_ID/exec'' accepting)
       = False
   \<and> filter is_network
        (snd (logToGoogleSheets ''https://script.google.com/macros/s/YOUR_POST_DEPLOY_ID/exec'' accepting))
       = []"
  using C8_unconfigured_endpoint_short_circuits
    [of "[]" plain "''TOI-700''" 1000 "answering pending_response"
        "''https://script.google.com/macros/s/YOUR_POST_DEPLOY_ID/exec''" accepting]
    placeholder_found
  by simp

section \<open>The probability shown for a completed response\<close>

lemma derived_probability_Fin: "derived_probability (Fin p) = Fin (clamp (p / 100) 0 1)"
  by (simp add: derived_probability_def clamp_def)

text \<open>
  C7. For a response whose \<open>procent\<close> holds the number p, the probability of the result
  that \<open>processData\<close> builds is clamp(p/100, 0, 1); 130 gives 1 and -10 gives 0 (and
  the two infinite numbers give 1 and 0).
\<close>

theorem C7_probability_is_clamped_percent:
  "(map_of fs ''procent'' = Some (JNum (Fin p)) \<longrightarrow>
      (\<exists>res. processData_results to_str (JObj fs) = Some res
         \<and> get_prop res ''probability'' = JNum (Fin (clamp (p / 100) 0 1))))
   \<and> derived_probability (Fin 130) = Fin 1
   \<and> derived_probability (Fin (- 10)) = Fin 0
   \<and> derived_probability PosInf = Fin 1
   \<and> derived_probability NegInf = Fin 0"
  by (simp add: processData_results_def derived_probability_Fin clamp_def)
     (simp add: derived_probability_def)

theorem C7_probability_is_clamped_percent_witness:
  "map_of [(''object_id'', JStr ''TOI-700''), (''procent'', JNum (Fin 130))] ''procent''
     = Some (JNum (Fin 130))
   \<and> (\<exists>res. processData_results (\<lambda>v. ''130'')
               (JObj [(''object_id'', JStr ''TOI-700''), (''procent'', JNum (Fin 130))]) = Some res
         \<and> get_prop res ''probability'' = JNum (Fin 1))"
  using C7_probability_is_clamped_percent
    [of "[(''object_id'', JStr ''TOI-700''), (''procent'', JNum (Fin 130))]" 130 "\<lambda>v. ''130''"]
  by (simp add: clamp_def)

section \<open>The defaults of the poll options\<close>

lemma falsy_values:
  "\<not> truthy v \<longleftrightarrow> v \<in> {JUndefined, JNull, JBool False, JNum (Fin 0), JNum NaN, JStr []}"
  by (cases v) auto

lemma whole_ms_nonzero: "v \<noteq> JNum (Fin 0) \<Longrightarrow> whole_ms v \<noteq> Some 0"
  by (auto simp: whole_ms_def split: jsval.splits jsnum.splits if_splits)

text \<open>
  C9. An \<open>interval\<close> that is 0 or any other falsy value (\<open>undefined\<close>, \<open>null\<close>,
  \<open>false\<close>, \<open>NaN\<close>, the empty string) is replaced by 10000 ms, and such a \<open>timeout\<close>
  by 120000 ms; so neither is ever 0 after the defaults, and a run of the loop that
  \<open>pollServerResponse\<close> starts has a non-zero interval and a non-zero timeout.
\<close>

theorem C9_falsy_options_take_defaults:
  "(opt_interval options \<in> {JUndefined, JNull, JBool False, JNum (Fin 0), JNum NaN, JStr []}
      \<longrightarrow> poll_interval options = JNum (Fin 10000))
   \<and> (opt_timeout options \<in> {JUndefined, JNull, JBool False, JNum (Fin 0), JNum NaN, JStr []}
      \<longrightarrow> poll_timeout options = JNum (Fin 120000))
   \<and> poll_interval options \<noteq> JNum (Fin 0) \<and> poll_timeout options \<noteq> JNum (Fin 0)
   \<and> (pollServerResponse enc endpoint object_id options start ticks = Some run
      \<longrightarrow> (\<exists>interval timeout. interval \<noteq> 0 \<and> timeout \<noteq> 0
             \<and> run = poll_loop enc endpoint object_id interval timeout start ticks start))"
proof (intro conjI impI)
  assume "opt_interval options \<in> {JUndefined, JNull, JBool False, JNum (Fin 0), JNum NaN, JStr []}"
  then have "\<not> truthy (opt_interval options)"
    by (simp only: falsy_values)
  then show "poll_interval options = JNum (Fin 10000)"
    by (simp add: poll_interval_def js_or_def DEFAULT_POLL_INTERVAL_MS_def)
next
  assume "opt_timeout options \<in> {JUndefined, JNull, JBool False, JNum (Fin 0), JNum NaN, JStr []}"
  then have "\<not> truthy (opt_timeout options)"
    by (simp only: falsy_values)
  then show "poll_timeout options = JNum (Fin 120000)"
    by (simp add: poll_timeout_def js_or_def DEFAULT_POLL_TIMEOUT_MS_def)
next
  show i: "poll_interval options \<noteq> JNum (Fin 0)"
    by (auto simp: poll_interval_def js_or_def DEFAULT_POLL_INTERVAL_MS_def)
  show t: "poll_timeout options \<noteq> JNum (Fin 0)"
    by (auto simp: poll_timeout_def js_or_def DEFAULT_POLL_TIMEOUT_MS_def)
  assume "pollServerResponse enc endpoint object_id options start ticks = Some run"
  then obtain interval timeout where
    "whole_ms (poll_interval options) = Some interval"
    "whole_ms (poll_timeout options) = Some timeout"
    "run = poll_loop enc endpoint object_id interval timeout start ticks start"
    by (auto simp: pollServerResponse_def split: option.splits)
  with whole_ms_nonzero [OF i] whole_ms_nonzero [OF t]
  show "\<exists>interval timeout. interval \<noteq> 0 \<and> timeout \<noteq> 0
          \<and> run = poll_loop enc endpoint object_id interval timeout start ticks start"
    by (intro exI [of _ interval] exI [of _ timeout]) auto
qed

theorem C9_falsy_options_take_defaults_witness:
  "opt_interval \<lparr>opt_interval = JNum (Fin 0), opt_timeout = JUndefined\<rparr>
     \<in> {JUndefined, JNull, JBool False, JNum (Fin 0), JNum NaN, JStr []}
   \<and> opt_timeout \<lparr>opt_interval = JNum (Fin 0), opt_timeout = JUndefined\<rparr>
     \<in> {JUndefined, JNull, JBool False, JNum (Fin 0), JNum NaN, JStr []}
   \<and> poll_interval \<lparr>opt_interval = JNum (Fin 0), opt_timeout = JUndefined\<rparr> = JNum (Fin 10000)
   \<and> poll_timeout \<lparr>opt_interval = JNum (Fin 0), opt_timeout = JUndefined\<rparr> = JNum (Fin 120000)
   \<and> pollServerResponse plain GOOGLE_SHEETS_GET_ENDPOINT ''TOI-700''
        \<lparr>opt_interval = JNum (Fin 0), opt_timeout = JUndefined\<rparr> 1000 []
       = Some (poll_loop plain GOOGLE_SHEETS_GET_ENDPOINT ''TOI-700'' 10000 120000 1000 [] 1000)"
proof -
  have defaults:
    "poll_interval \<lparr>opt_interval = JNum (Fin 0), opt_timeout = JUndefined\<rparr> = JNum (Fin 10000)"
    "poll_timeout \<lparr>opt_interval = JNum (Fin 0), opt_timeout = JUndefined\<rparr> = JNum (Fin 120000)"
    using C9_falsy_options_take_defaults
      [of "\<lparr>opt_interval = JNum (Fin 0), opt_timeout = JUndefined\<rparr>"]
    by simp_all
  then show ?thesis
    by (simp add: pollServerResponse_def whole_ms_def del: poll_loop.simps)
qed

section \<open>The poll loop, step by step\<close>

text \<open>
  The fetcher always returns (the bridge's own timer settles its promise), and neither it
  nor the callbacks count as a call of the fetcher.
\<close>

lemma fetchServerResponse_returns:
  "fst (fetchServerResponse enc endpoint object_id now w) \<noteq> None"
  using jsonp_settles [of enc endpoint object_id now "jsonp w"]
  by (auto simp: fetchServerResponse_def split: prod.splits option.splits sum.splits)

lemma fetchServerResponse_events:
  "fetchServerResponse enc endpoint object_id now w = (r, evs, ms)
     \<Longrightarrow> count_list evs CallFetcher = 0 \<and> count_list evs OnPending = 0"
  by (auto simp: fetchServerResponse_def fetchServerResponseJSONP_def
        split: prod.splits option.splits sum.splits if_splits)

lemma poll_catch_events: "count_list (snd (poll_catch c err)) CallFetcher = 0"
  by (simp add: poll_catch_def split: option.splits)

lemma poll_attempt_events: "count_list (snd (poll_attempt c r)) CallFetcher = 0"
  by (auto simp: poll_attempt_def poll_catch_def Let_def split: sum.splits option.splits)

lemma poll_attempt_complete:
  assumes "marker_call c = None" and "final_call c = None"
  shows "fst (poll_attempt c (Inr d)) = (if terminal_field d = None then None else Some (Inr d))"
  using assms
  by (cases d) (auto simp: poll_attempt_def Let_def split: option.splits jsval.splits)

lemma poll_attempt_callbacks:
  assumes "marker_call c = None" and "final_call c = None"
  shows "snd (poll_attempt c (Inr d)) =
     (if pending_marker d then [OnPending] else [])
       @ (if terminal_field d = None then [OnPending] else [])"
  using assms
  by (cases d) (auto simp: poll_attempt_def Let_def split: option.splits jsval.splits)

lemma poll_attempt_error: "poll_attempt c (Inl err) = poll_catch c err"
  by (simp add: poll_attempt_def)

lemma poll_catch_throws:
  "poll_catch c err = (Some out, cbs) \<Longrightarrow> out = Inl thrown
     \<Longrightarrow> error_call c = Some thrown \<and> cbs = [OnError err]"
  by (auto simp: poll_catch_def split: option.splits)

lemma poll_attempt_throws:
  assumes "poll_attempt c r = (Some (Inl e), cbs)"
  shows "error_call c = Some e \<and> (\<exists>pre err. cbs = pre @ [OnError err])"
proof (cases r)
  case (Inl err)
  with assms have "poll_catch c err = (Some (Inl e), cbs)"
    by (simp add: poll_attempt_def)
  from poll_catch_throws [OF this refl] show ?thesis
    by (intro conjI exI [of _ "[]"] exI [of _ err]) simp_all
next
  case (Inr data)
  then show ?thesis
    using assms
    by (auto simp: poll_attempt_def Let_def poll_catch_def
          split: option.splits prod.splits if_splits)
qed

lemma poll_loop_timed_out:
  "timeout \<le> int now - int start
     \<Longrightarrow> poll_loop enc endpoint object_id interval timeout start ticks now
           = (Some (Inl poll_timeout_error), [TimedOut now])"
  by (cases ticks) simp_all

lemma poll_loop_continue:
  assumes "int now - int start < timeout"
    and "fetchServerResponse enc endpoint object_id now (fetch k) = (Some r, evs, ms)"
    and "fst (poll_attempt (calls k) r) = None"
  shows "poll_loop enc endpoint object_id interval timeout start (k # ks) now =
           (fst (poll_loop enc endpoint object_id interval timeout start ks
                   (now + ms + timer_delay interval + timer_late k)),
            CallFetcher # evs @ snd (poll_attempt (calls k) r)
              @ snd (poll_loop enc endpoint object_id interval timeout start ks
                       (now + ms + timer_delay interval + timer_late k)))"
  using assms by (cases "poll_attempt (calls k) r") (simp split: prod.splits)

lemma poll_loop_ends:
  assumes "int now - int start < timeout"
    and "fetchServerResponse enc endpoint object_id now (fetch k) = (Some r, evs, ms)"
    and "fst (poll_attempt (calls k) r) = Some out"
  shows "poll_loop enc endpoint object_id interval timeout start (k # ks) now =
           (Some out, CallFetcher # evs @ snd (poll_attempt (calls k) r))"
  using assms by (cases "poll_attempt (calls k) r") (simp split: prod.splits)

text \<open>
  An error that ends the loop is either the timeout error, thrown at a loop condition
  that read a clock at least the timeout after the start, or what a call of \<open>onError\<close>
  threw.
\<close>

lemma poll_loop_failure:
  "poll_loop enc endpoint object_id interval timeout start ticks now = (Some (Inl e), tr)
     \<Longrightarrow> (e = poll_timeout_error
            \<and> (\<exists>pre late. tr = pre @ [TimedOut late] \<and> now \<le> late
                  \<and> timeout \<le> int late - int start))
         \<or> (\<exists>k\<in>set ticks. error_call (calls k) = Some e)
            \<and> (\<exists>pre err. tr = pre @ [OnError err])"
proof (induction ticks arbitrary: now tr)
  case Nil
  then have "e = poll_timeout_error" "tr = [] @ [TimedOut now]" "timeout \<le> int now - int start"
    by (auto split: if_splits)
  then show ?case by blast
next
  case (Cons k ks)
  show ?case
  proof (cases "int now - int start < timeout")
    case False
    with Cons.prems
    have "e = poll_timeout_error" "tr = [] @ [TimedOut now]" "timeout \<le> int now - int start"
      by auto
    then show ?thesis by blast
  next
    case True
    obtain r evs ms where f: "fetchServerResponse enc endpoint object_id now (fetch k) = (r, evs, ms)"
      by (cases "fetchServerResponse enc endpoint object_id now (fetch k)") auto
    show ?thesis
    proof (cases r)
      case None
      with Cons.prems True f show ?thesis by simp
    next
      case (Some v)
      obtain ret cbs where a: "poll_attempt (calls k) v = (ret, cbs)"
        by (cases "poll_attempt (calls k) v") auto
      show ?thesis
      proof (cases ret)
        case (Some out)
        with Cons.prems True f a \<open>r = Some v\<close>
        have out: "out = Inl e" and tr: "tr = CallFetcher # evs @ cbs"
          by simp_all
        from poll_attempt_throws [OF a [unfolded Some out]]
        obtain pre err where "error_call (calls k) = Some e" "cbs = pre @ [OnError err]"
          by blast
        then have "\<exists>k'\<in>set (k # ks). error_call (calls k') = Some e"
          and "tr = (CallFetcher # evs @ pre) @ [OnError err]"
          using tr by simp_all
        then show ?thesis by blast
      next
        case None
        let ?next = "now + ms + timer_delay interval + timer_late k"
        obtain res rest where
          l: "poll_loop enc endpoint object_id interval timeout start ks ?next = (res, rest)"
          by (cases "poll_loop enc endpoint object_id interval timeout start ks ?next") auto
        with Cons.prems True f a \<open>r = Some v\<close> None
        have res: "res = Some (Inl e)" and tr: "tr = CallFetcher # evs @ cbs @ rest"
          by simp_all
        from Cons.IH [OF l [unfolded res]]
        show ?thesis
        proof (elim disjE conjE exE bexE)
          fix pre late
          assume "e = poll_timeout_error" "rest = pre @ [TimedOut late]" "?next \<le> late"
            "timeout \<le> int late - int start"
          then have "e = poll_timeout_error" "tr = (CallFetcher # evs @ cbs @ pre) @ [TimedOut late]"
            "now \<le> late" "timeout \<le> int late - int start"
            using tr by simp_all
          then show ?thesis by blast
        next
          fix k' pre err
          assume "k' \<in> set ks" "error_call (calls k') = Some e" "rest = pre @ [OnError err]"
          then have "\<exists>k'\<in>set (k # ks). error_call (calls k') = Some e"
            and "tr = (CallFetcher # evs @ cbs @ pre) @ [OnError err]"
            using tr by auto
          then show ?thesis by blast
        qed
      qed
    qed
  qed
qed

section \<open>Errors and the loop\<close>

text \<open>
  C4 as amended. In an iteration entered before the timeout, a fetch that fails with an
  error makes the loop call \<open>onError\<close> with that error; when that call returns, the
  loop goes on with the next iteration after the sleep, and when it throws, the loop ends
  with what it threw. An error that the loop ends with is either the polling-timed-out
  error, thrown at a loop condition whose clock reading was at least the timeout after
  the start, or an error thrown by a call of \<open>onError\<close>. Entered when the time since the
  start has reached the timeout, the loop ends with the polling-timed-out error at once.
\<close>

theorem C4_errors_reported_timeout_or_onError_fails:
  "(int now - int start < timeout
      \<and> fetchServerResponse enc endpoint object_id now (fetch k) = (Some (Inl err), evs, ms)
      \<and> error_call (calls k) = None
    \<longrightarrow> poll_loop enc endpoint object_id interval timeout start (k # ks) now =
          (fst (poll_loop enc endpoint object_id interval timeout start ks
                  (now + ms + timer_delay interval + timer_late k)),
           CallFetcher # evs @ [OnError err]
             @ snd (poll_loop enc endpoint object_id interval timeout start ks
                      (now + ms + timer_delay interval + timer_late k))))
   \<and> (int now - int start < timeout
      \<and> fetchServerResponse enc endpoint object_id now (fetch k) = (Some (Inl err), evs, ms)
      \<and> error_call (calls k) = Some thrown
    \<longrightarrow> poll_loop enc endpoint object_id interval timeout start (k # ks) now =
          (Some (Inl thrown), CallFetcher # evs @ [OnError err]))
   \<and> (poll_loop enc endpoint object_id interval timeout start ticks now = (Some (Inl e), tr)
    \<longrightarrow> (e = poll_timeout_error
           \<and> (\<exists>pre late. tr = pre @ [TimedOut late] \<and> now \<le> late
                 \<and> timeout \<le> int late - int start))
        \<or> (\<exists>k\<in>set ticks. error_call (calls k) = Some e)
           \<and> (\<exists>pre err. tr = pre @ [OnError err]))
   \<and> (timeout \<le> int now - int start
    \<longrightarrow> poll_loop enc endpoint object_id interval timeout start ticks now
          = (Some (Inl poll_timeout_error), [TimedOut now]))"
proof (intro conjI impI)
  assume h: "int now - int start < timeout
      \<and> fetchServerResponse enc endpoint object_id now (fetch k) = (Some (Inl err), evs, ms)
      \<and> error_call (calls k) = None"
  then have "poll_attempt (calls k) (Inl err) = (None, [OnError err])"
    by (simp add: poll_attempt_error poll_catch_def)
  with h show "poll_loop enc endpoint object_id interval timeout start (k # ks) now =
          (fst (poll_loop enc endpoint object_id interval timeout start ks
                  (now + ms + timer_delay interval + timer_late k)),
           CallFetcher # evs @ [OnError err]
             @ snd (poll_loop enc endpoint object_id interval timeout start ks
                      (now + ms + timer_delay interval + timer_late k)))"
    using poll_loop_continue [of now start timeout enc endpoint object_id k "Inl err" evs ms interval ks]
    by simp
next
  assume h: "int now - int start < timeout
      \<and> fetchServerResponse enc endpoint object_id now (fetch k) = (Some (Inl err), evs, ms)
      \<and> error_call (calls k) = Some thrown"
  then have "poll_attempt (calls k) (Inl err) = (Some (Inl thrown), [OnError err])"
    by (simp add: poll_attempt_error poll_catch_def)
  with h show "poll_loop enc endpoint object_id interval timeout start (k # ks) now =
          (Some (Inl thrown), CallFetcher # evs @ [OnError err])"
    using poll_loop_ends [of now start timeout enc endpoint object_id k "Inl err" evs ms
        "Inl thrown" interval ks]
    by simp
next
  assume "poll_loop enc endpoint object_id interval timeout start ticks now = (Some (Inl e), tr)"
  then show "(e = poll_timeout_error
           \<and> (\<exists>pre late. tr = pre @ [TimedOut late] \<and> now \<le> late
                 \<and> timeout \<le> int late - int start))
        \<or> (\<exists>k\<in>set ticks. error_call (calls k) = Some e)
           \<and> (\<exists>pre err. tr = pre @ [OnError err])"
    by (rule poll_loop_failure)
next
  assume "timeout \<le> int now - int start"
  then show "poll_loop enc endpoint object_id interval timeout start ticks now
              = (Some (Inl poll_timeout_error), [TimedOut now])"
    by (rule poll_loop_timed_out)
qed

lemma failing_run:
  "fetchServerResponse plain GOOGLE_SHEETS_GET_ENDPOINT ''TOI-700'' 1000 (fetch (every failing))
     = (Some (Inl (JsError ''Error'' ''GET failed (404): Not Found'')),
        fst (snd (fetchServerResponse plain GOOGLE_SHEETS_GET_ENDPOINT ''TOI-700'' 1000 (fetch (every failing)))),
        5)"
  by code_simp

lemma complete_run:
  "fst (poll_loop plain GOOGLE_SHEETS_GET_ENDPOINT ''TOI-700'' 10 50 1000
          [every (answering complete_response)] (1000 + 5 + timer_delay 10 + timer_late (every failing)))
     = Some (Inr complete_response)"
  by code_simp

text \<open>
  A run at the endpoint of the source: the first fetch fails on both transports and
  \<open>onError\<close> returns, the second is answered with a completed response.
\<close>

theorem C4_errors_reported_timeout_or_onError_fails_witness:
  "int 1000 - int 1000 < 50
   \<and> fst (fetchServerResponse plain GOOGLE_SHEETS_GET_ENDPOINT ''TOI-700'' 1000 (fetch (every failing)))
       = Some (Inl (JsError ''Error'' ''GET failed (404): Not Found''))
   \<and> error_call (calls (every failing)) = None
   \<and> fst (poll_loop plain GOOGLE_SHEETS_GET_ENDPOINT ''TOI-700'' 10 50 1000
            [every failing, every (answering complete_response)] 1000) = Some (Inr complete_response)
   \<and> OnError (JsError ''Error'' ''GET failed (404): Not Found'')
       \<in> set (snd (poll_loop plain GOOGLE_SHEETS_GET_ENDPOINT ''TOI-700'' 10 50 1000
            [every failing, every (answering complete_response)] 1000))
   \<and> (50::int) \<le> int 1050 - int 1000
   \<and> poll_loop plain GOOGLE_SHEETS_GET_ENDPOINT ''TOI-700'' 10 50 1000 [] 1050
       = (Some (Inl poll_timeout_error), [TimedOut 1050])"
proof -
  have in_time: "int 1000 - int 1000 < (50::int)"
    by simp
  have too_late: "(50::int) \<le> int 1050 - int 1000"
    by simp
  have returns: "error_call (calls (every failing)) = None"
    by (simp add: every_def returning_def)
  have step: "poll_loop plain GOOGLE_SHEETS_GET_ENDPOINT ''TOI-700'' 10 50 1000
            [every failing, every (answering complete_response)] 1000 =
          (fst (poll_loop plain GOOGLE_SHEETS_GET_ENDPOINT ''TOI-700'' 10 50 1000
                  [every (answering complete_response)]
                  (1000 + 5 + timer_delay 10 + timer_late (every failing))),
           CallFetcher
             # fst (snd (fetchServerResponse plain GOOGLE_SHEETS_GET_ENDPOINT ''TOI-700'' 1000
                          (fetch (every failing))))
             @ [OnError (JsError ''Error'' ''GET failed (404): Not Found'')]
             @ snd (poll_loop plain GOOGLE_SHEETS_GET_ENDPOINT ''TOI-700'' 10 50 1000
                      [every (answering complete_response)]
                      (1000 + 5 + timer_delay 10 + timer_late (every failing))))"
    using C4_errors_reported_timeout_or_onError_fails
      [where now = 1000 and start = 1000 and timeout = 50 and enc = plain
         and endpoint = GOOGLE_SHEETS_GET_ENDPOINT and object_id = "''TOI-700''"
         and k = "every failing" and err = "JsError ''Error'' ''GET failed (404): Not Found''"
         and evs = "fst (snd (fetchServerResponse plain GOOGLE_SHEETS_GET_ENDPOINT ''TOI-700'' 1000
                       (fetch (every failing))))"
         and ms = 5 and interval = 10 and ks = "[every (answering complete_response)]"]
      in_time failing_run returns
    by blast
  have stop: "poll_loop plain GOOGLE_SHEETS_GET_ENDPOINT ''TOI-700'' 10 50 1000 [] 1050
       = (Some (Inl poll_timeout_error), [TimedOut 1050])"
    using C4_errors_reported_timeout_or_onError_fails
      [where now = 1050 and start = 1000 and timeout = 50 and enc = plain
         and endpoint = GOOGLE_SHEETS_GET_ENDPOINT and object_id = "''TOI-700''"
         and interval = 10 and ticks = "[]"]
      too_late
    by blast
  have failed: "fst (fetchServerResponse plain GOOGLE_SHEETS_GET_ENDPOINT ''TOI-700'' 1000 (fetch (every failing)))
       = Some (Inl (JsError ''Error'' ''GET failed (404): Not Found''))"
    using failing_run by (metis fst_conv)
  show ?thesis
    unfolding step
    using in_time too_late stop failed complete_run returns
    by (simp del: poll_loop.simps)
qed

text \<open>
  C4 as stated fails: when the first fetch fails on both transports and the caller's
  \<open>onError\<close> throws, the loop ends at once with what \<open>onError\<close> threw, not with the
  polling-timed-out error, although no time has passed since the start and the next
  fetch would have been answered.
\<close>

theorem C4_counterexample:
  "fst (poll_loop plain GOOGLE_SHEETS_GET_ENDPOINT ''TOI-700'' 10 50 1000
          [\<lparr>fetch = failing, calls = onError_throwing, timer_late = 0\<rparr>,
           every (answering complete_response)] 1000)
     = Some (Inl (JsError ''TypeError'' ''status is not defined''))
   \<and> filter (\<lambda>e. \<not> is_network e)
        (snd (poll_loop plain GOOGLE_SHEETS_GET_ENDPOINT ''TOI-700'' 10 50 1000
                [\<lparr>fetch = failing, calls = onError_throwing, timer_late = 0\<rparr>,
                 every (answering complete_response)] 1000))
       = [CallFetcher, OnError (JsError ''Error'' ''GET failed (404): Not Found'')]
   \<and> JsError ''TypeError'' ''status is not defined'' \<noteq> poll_timeout_error"
  by code_simp

section \<open>How often the loop fetches\<close>

text \<open>
  For an interval inside the range of the timer, every iteration that goes on to the next
  one lets at least the interval pass, so the n-th call of the fetcher happens no earlier
  than (n - 1) intervals after the start.
\<close>

lemma timer_delay_in_range:
  "0 \<le> interval \<Longrightarrow> interval \<le> 2147483647 \<Longrightarrow> timer_delay interval = nat interval"
  by (simp add: timer_delay_def)

lemma timer_delay_ge: "interval \<le> 2147483647 \<Longrightarrow> interval \<le> int (timer_delay interval)"
  by (cases "0 \<le> interval") (simp_all add: timer_delay_in_range)

lemma poll_loop_attempts:
  assumes "0 \<le> interval" and "interval \<le> 2147483647"
  shows "count_list (snd (poll_loop enc endpoint object_id interval timeout start ticks now)) CallFetcher = 0
         \<or> (int (count_list (snd (poll_loop enc endpoint object_id interval timeout start ticks now)) CallFetcher) - 1)
               * interval + (int now - int start) < timeout"
proof (induction ticks arbitrary: now)
  case Nil
  then show ?case by simp
next
  case (Cons k ks)
  show ?case
  proof (cases "int now - int start < timeout")
    case False
    then show ?thesis by simp
  next
    case True
    obtain r evs ms where f: "fetchServerResponse enc endpoint object_id now (fetch k) = (r, evs, ms)"
      by (cases "fetchServerResponse enc endpoint object_id now (fetch k)") auto
    from fetchServerResponse_events [OF f] have evs: "count_list evs CallFetcher = 0"
      by simp
    show ?thesis
    proof (cases r)
      case None
      with True f evs show ?thesis by simp
    next
      case (Some v)
      show ?thesis
      proof (cases "fst (poll_attempt (calls k) v)")
        case (Some out)
        from poll_loop_ends [OF True f [unfolded \<open>r = Some v\<close>] Some, of interval ks]
        show ?thesis
          using True evs poll_attempt_events [of "calls k" v] by (simp del: poll_loop.simps)
      next
        case None
        let ?next = "now + ms + timer_delay interval + timer_late k"
        let ?n = "count_list (snd (poll_loop enc endpoint object_id interval timeout start ks ?next)) CallFetcher"
        have n: "count_list (snd (poll_loop enc endpoint object_id interval timeout start (k # ks) now)) CallFetcher
                   = Suc ?n"
          using poll_loop_continue [OF True f [unfolded \<open>r = Some v\<close>] None, of interval ks]
            evs poll_attempt_events [of "calls k" v]
          by (simp del: poll_loop.simps)
        have "?n = 0 \<or> (int ?n - 1) * interval + (int ?next - int start) < timeout"
          by (rule Cons.IH)
        then have "int ?n * interval + (int now - int start) < timeout"
        proof (elim disjE)
          assume "?n = 0"
          with True show ?thesis by simp
        next
          assume 2: "(int ?n - 1) * interval + (int ?next - int start) < timeout"
          have "int ?n * interval + (int now - int start)
                  \<le> (int ?n - 1) * interval + (int ?next - int start)"
            using timer_delay_ge [OF assms(2)] by (simp add: algebra_simps)
          with 2 show ?thesis by simp
        qed
        with n show ?thesis by (simp del: poll_loop.simps)
      qed
    qed
  qed
qed

lemma attempts_bound:
  assumes "0 < interval" "interval \<le> 2147483647" "0 < timeout"
  shows "int (count_list (snd (poll_loop enc endpoint object_id interval timeout start ticks start)) CallFetcher)
           \<le> \<lceil>rat_of_int timeout / rat_of_int interval\<rceil>"
proof -
  let ?n = "count_list (snd (poll_loop enc endpoint object_id interval timeout start ticks start)) CallFetcher"
  from assms have pos: "0 < \<lceil>rat_of_int timeout / rat_of_int interval\<rceil>"
    by simp
  from poll_loop_attempts [of interval enc endpoint object_id timeout start ticks start] assms
  consider "?n = 0" | "(int ?n - 1) * interval < timeout"
    by auto
  then show ?thesis
  proof cases
    case 1
    with pos show ?thesis by simp
  next
    case 2
    then have "rat_of_int ((int ?n - 1) * interval) < rat_of_int timeout"
      by (simp only: of_int_less_iff)
    then have "rat_of_int (int ?n - 1) * rat_of_int interval < rat_of_int timeout"
      by simp
    with assms have "rat_of_int (int ?n - 1) < rat_of_int timeout / rat_of_int interval"
      by (simp add: pos_less_divide_eq)
    then have "int ?n - 1 < \<lceil>rat_of_int timeout / rat_of_int interval\<rceil>"
      by (simp only: less_ceiling_iff)
    then show ?thesis by simp
  qed
qed

text \<open>
  Against a fetcher that always answers with the pending response, with calls of
  \<open>onPending\<close> that return: every iteration calls \<open>onPending\<close>, the loop ends with the
  timeout error once the ticks reach the timeout, and it makes as many iterations as the
  lateness of the fetches and the timers leaves room for.
\<close>

lemma pending_attempt:
  "marker_call c = None \<Longrightarrow> final_call c = None
     \<Longrightarrow> poll_attempt c (Inr pending_response) = (None, [OnPending, OnPending])"
  by (simp add: poll_attempt_def pending_response_def)

lemma poll_loop_pending:
  assumes "int now - int start < timeout"
    and "fst (fetchServerResponse enc endpoint object_id now (fetch k)) = Some (Inr pending_response)"
    and "marker_call (calls k) = None" and "final_call (calls k) = None"
  shows "poll_loop enc endpoint object_id interval timeout start (k # ks) now =
           (fst (poll_loop enc endpoint object_id interval timeout start ks
                   (now + snd (snd (fetchServerResponse enc endpoint object_id now (fetch k)))
                      + timer_delay interval + timer_late k)),
            CallFetcher # fst (snd (fetchServerResponse enc endpoint object_id now (fetch k)))
              @ [OnPending, OnPending]
              @ snd (poll_loop enc endpoint object_id interval timeout start ks
                       (now + snd (snd (fetchServerResponse enc endpoint object_id now (fetch k)))
                          + timer_delay interval + timer_late k)))"
proof -
  obtain evs ms where
    f: "fetchServerResponse enc endpoint object_id now (fetch k) = (Some (Inr pending_response), evs, ms)"
    using assms(2) by (cases "fetchServerResponse enc endpoint object_id now (fetch k)") auto
  show ?thesis
    using poll_loop_continue [OF assms(1) f, of interval ks]
    by (simp add: f pending_attempt [OF assms(3,4)] del: poll_loop.simps)
qed

lemma poll_loop_pending_times_out:
  assumes "0 < interval" and "interval \<le> 2147483647"
    and "\<forall>k\<in>set ticks.
           (\<forall>t. fst (fetchServerResponse enc endpoint object_id t (fetch k)) = Some (Inr pending_response))
           \<and> marker_call (calls k) = None \<and> final_call (calls k) = None"
    and "timeout \<le> int (length ticks) * interval + (int now - int start)"
  shows "fst (poll_loop enc endpoint object_id interval timeout start ticks now)
           = Some (Inl poll_timeout_error)"
  using assms(3,4)
proof (induction ticks arbitrary: now)
  case Nil
  then show ?case by simp
next
  case (Cons k ks)
  show ?case
  proof (cases "int now - int start < timeout")
    case False
    then show ?thesis by simp
  next
    case True
    let ?next = "now + snd (snd (fetchServerResponse enc endpoint object_id now (fetch k)))
                   + timer_delay interval + timer_late k"
    have k: "fst (fetchServerResponse enc endpoint object_id now (fetch k)) = Some (Inr pending_response)"
      "marker_call (calls k) = None" "final_call (calls k) = None"
      using Cons.prems(1) by simp_all
    have "int (length (k # ks)) * interval + (int now - int start)
            \<le> int (length ks) * interval + (int ?next - int start)"
      using timer_delay_ge [OF assms(2)] by (simp add: algebra_simps)
    with Cons.prems(2) have "timeout \<le> int (length ks) * interval + (int ?next - int start)"
      by linarith
    with Cons.IH [of ?next] Cons.prems(1)
    have "fst (poll_loop enc endpoint object_id interval timeout start ks ?next)
            = Some (Inl poll_timeout_error)"
      by simp
    then show ?thesis
      by (simp add: poll_loop_pending [OF True k] del: poll_loop.simps)
  qed
qed

lemma poll_loop_pending_calls:
  assumes "\<forall>k\<in>set ticks.
           (\<forall>t. fst (fetchServerResponse enc endpoint object_id t (fetch k)) = Some (Inr pending_response))
           \<and> marker_call (calls k) = None \<and> final_call (calls k) = None"
  shows "count_list (snd (poll_loop enc endpoint object_id interval timeout start ticks now)) CallFetcher
           \<le> count_list (snd (poll_loop enc endpoint object_id interval timeout start ticks now)) OnPending"
  using assms
proof (induction ticks arbitrary: now)
  case Nil
  then show ?case by simp
next
  case (Cons k ks)
  show ?case
  proof (cases "int now - int start < timeout")
    case False
    then show ?thesis by simp
  next
    case True
    let ?next = "now + snd (snd (fetchServerResponse enc endpoint object_id now (fetch k)))
                   + timer_delay interval + timer_late k"
    have k: "fst (fetchServerResponse enc endpoint object_id now (fetch k)) = Some (Inr pending_response)"
      "marker_call (calls k) = None" "final_call (calls k) = None"
      using Cons.prems by simp_all
    have "count_list (fst (snd (fetchServerResponse enc endpoint object_id now (fetch k)))) CallFetcher = 0"
      using fetchServerResponse_events [of enc endpoint object_id now "fetch k"]
      by (metis prod.collapse)
    with Cons.IH [of ?next] Cons.prems show ?thesis
      by (simp add: poll_loop_pending [OF True k] del: poll_loop.simps)
  qed
qed

lemma fetch_ms_bound:
  "snd (snd (fetchServerResponse enc endpoint object_id t w)) \<le> jsonp_ms w + direct_ms w"
  by (auto simp: fetchServerResponse_def split: prod.splits option.splits sum.splits)

lemma poll_loop_pending_iterations:
  assumes "0 \<le> interval" and "interval \<le> 2147483647"
    and "\<forall>k\<in>set ticks.
           (\<forall>t. fst (fetchServerResponse enc endpoint object_id t (fetch k)) = Some (Inr pending_response))
           \<and> marker_call (calls k) = None \<and> final_call (calls k) = None
           \<and> jsonp_ms (fetch k) + direct_ms (fetch k) + timer_late k \<le> c"
    and "Suc m \<le> length ticks"
    and "int now - int start + int m * (interval + int c) < timeout"
  shows "Suc m \<le> count_list (snd (poll_loop enc endpoint object_id interval timeout start ticks now)) CallFetcher"
  using assms(3,4,5)
proof (induction m arbitrary: ticks now)
  case 0
  then obtain k ks where ticks: "ticks = k # ks"
    by (cases ticks) auto
  from 0 have True: "int now - int start < timeout"
    by simp
  have k: "fst (fetchServerResponse enc endpoint object_id now (fetch k)) = Some (Inr pending_response)"
    "marker_call (calls k) = None" "final_call (calls k) = None"
    using 0(1) by (simp_all add: ticks)
  show ?case
    unfolding ticks by (simp add: poll_loop_pending [OF True k] del: poll_loop.simps)
next
  case (Suc m)
  then obtain k ks where ticks: "ticks = k # ks"
    by (cases ticks) auto
  have step: "0 \<le> int (Suc m) * (interval + int c)"
    using assms(1) by (intro mult_nonneg_nonneg) simp_all
  with Suc.prems(3) have True: "int now - int start < timeout"
    by linarith
  have k: "fst (fetchServerResponse enc endpoint object_id now (fetch k)) = Some (Inr pending_response)"
    "marker_call (calls k) = None" "final_call (calls k) = None"
    and late: "jsonp_ms (fetch k) + direct_ms (fetch k) + timer_late k \<le> c"
    using Suc.prems(1) by (simp_all add: ticks)
  let ?ms = "snd (snd (fetchServerResponse enc endpoint object_id now (fetch k)))"
  let ?next = "now + ?ms + timer_delay interval + timer_late k"
  have "?ms + timer_late k \<le> c"
    using fetch_ms_bound [of enc endpoint object_id now "fetch k"] late by linarith
  then have "int ?next - int start \<le> int now - int start + (interval + int c)"
    using timer_delay_in_range [OF assms(1,2)] assms(1) by simp
  moreover have "int (Suc m) * (interval + int c) = int m * (interval + int c) + (interval + int c)"
    by (simp add: algebra_simps)
  ultimately have "int ?next - int start + int m * (interval + int c) < timeout"
    using Suc.prems(3) by linarith
  moreover have "Suc m \<le> length ks"
    using Suc.prems(2) by (simp add: ticks)
  moreover have "\<forall>k\<in>set ks.
           (\<forall>t. fst (fetchServerResponse enc endpoint object_id t (fetch k)) = Some (Inr pending_response))
           \<and> marker_call (calls k) = None \<and> final_call (calls k) = None
           \<and> jsonp_ms (fetch k) + direct_ms (fetch k) + timer_late k \<le> c"
    using Suc.prems(1) by (simp add: ticks)
  ultimately have "Suc m \<le> count_list (snd (poll_loop enc endpoint object_id interval timeout start ks ?next)) CallFetcher"
    using Suc.IH [of ks ?next] by blast
  then show ?case
    unfolding ticks by (simp add: poll_loop_pending [OF True k] del: poll_loop.simps)
qed

text \<open>
  C6 as amended. With an interval that is a whole number of milliseconds from 1 to
  2147483647 and a positive timeout, the loop calls the fetcher at most
  ceil(timeout / interval) + 1 times, however it ends. With interval 10 and timeout 50,
  against a fetcher that answers every call with the pending response, when the fetch and
  the lateness of the timer take at most 6 ms together in every iteration and the calls
  of \<open>onPending\<close> return, and with ticks for five iterations: the loop ends with the
  polling-timed-out error after at least 4 calls of the fetcher, each followed by a call
  of \<open>onPending\<close>, so \<open>onPending\<close> is called at least 4 times.
\<close>

theorem C6_attempts_bounded_in_timer_range:
  "(whole_ms (poll_interval options) = Some interval \<and> whole_ms (poll_timeout options) = Some timeout
      \<and> 0 < interval \<and> interval \<le> 2147483647 \<and> 0 < timeout
    \<longrightarrow> (\<exists>run. pollServerResponse enc endpoint object_id options start ticks = Some run
          \<and> int (count_list (snd run) CallFetcher)
              \<le> \<lceil>rat_of_int timeout / rat_of_int interval\<rceil> + 1))
   \<and> (5 \<le> length ticks
       \<and> (\<forall>k\<in>set ticks.
             (\<forall>t. fst (fetchServerResponse enc endpoint object_id t (fetch k))
                    = Some (Inr pending_response))
             \<and> marker_call (calls k) = None \<and> final_call (calls k) = None
             \<and> jsonp_ms (fetch k) + direct_ms (fetch k) + timer_late k \<le> 6)
    \<longrightarrow> (\<exists>tr. pollServerResponse enc endpoint object_id
                 \<lparr>opt_interval = JNum (Fin 10), opt_timeout = JNum (Fin 50)\<rparr> start ticks
                = Some (Some (Inl poll_timeout_error), tr)
              \<and> 4 \<le> count_list tr CallFetcher
              \<and> count_list tr CallFetcher \<le> count_list tr OnPending
              \<and> 4 \<le> count_list tr OnPending))"
proof (intro conjI impI)
  assume h: "whole_ms (poll_interval options) = Some interval
      \<and> whole_ms (poll_timeout options) = Some timeout
      \<and> 0 < interval \<and> interval \<le> 2147483647 \<and> 0 < timeout"
  then have "int (count_list (snd (poll_loop enc endpoint object_id interval timeout start ticks start))
                CallFetcher)
               \<le> \<lceil>rat_of_int timeout / rat_of_int interval\<rceil>"
    by (intro attempts_bound) simp_all
  with h show "\<exists>run. pollServerResponse enc endpoint object_id options start ticks = Some run
          \<and> int (count_list (snd run) CallFetcher)
              \<le> \<lceil>rat_of_int timeout / rat_of_int interval\<rceil> + 1"
    by (simp add: pollServerResponse_def del: poll_loop.simps)
next
  assume h: "5 \<le> length ticks
       \<and> (\<forall>k\<in>set ticks.
             (\<forall>t. fst (fetchServerResponse enc endpoint object_id t (fetch k))
                    = Some (Inr pending_response))
             \<and> marker_call (calls k) = None \<and> final_call (calls k) = None
             \<and> jsonp_ms (fetch k) + direct_ms (fetch k) + timer_late k \<le> 6)"
  let ?run = "poll_loop enc endpoint object_id 10 50 start ticks start"
  have run: "pollServerResponse enc endpoint object_id
               \<lparr>opt_interval = JNum (Fin 10), opt_timeout = JNum (Fin 50)\<rparr> start ticks
             = Some ?run"
    by (simp add: pollServerResponse_def poll_interval_def poll_timeout_def js_or_def whole_ms_def
          del: poll_loop.simps)
  from h have pend: "\<forall>k\<in>set ticks.
           (\<forall>t. fst (fetchServerResponse enc endpoint object_id t (fetch k)) = Some (Inr pending_response))
           \<and> marker_call (calls k) = None \<and> final_call (calls k) = None"
    by blast
  from h have "(50::int) \<le> int (length ticks) * 10 + (int start - int start)"
    by simp
  with pend have ends: "fst ?run = Some (Inl poll_timeout_error)"
    by (intro poll_loop_pending_times_out) simp_all
  have "int start - int start + int 3 * (10 + int 6) < (50::int)"
    by simp
  moreover from h have "Suc 3 \<le> length ticks"
    by simp
  ultimately have "Suc 3 \<le> count_list (snd ?run) CallFetcher"
    using h by (intro poll_loop_pending_iterations [where c = 6]) simp_all
  then have four: "4 \<le> count_list (snd ?run) CallFetcher"
    by simp
  have each: "count_list (snd ?run) CallFetcher \<le> count_list (snd ?run) OnPending"
    using pend by (rule poll_loop_pending_calls)
  show "\<exists>tr. pollServerResponse enc endpoint object_id
                 \<lparr>opt_interval = JNum (Fin 10), opt_timeout = JNum (Fin 50)\<rparr> start ticks
                = Some (Some (Inl poll_timeout_error), tr)
              \<and> 4 \<le> count_list tr CallFetcher
              \<and> count_list tr CallFetcher \<le> count_list tr OnPending
              \<and> 4 \<le> count_list tr OnPending"
  proof (intro exI conjI)
    show "pollServerResponse enc endpoint object_id
                 \<lparr>opt_interval = JNum (Fin 10), opt_timeout = JNum (Fin 50)\<rparr> start ticks
                = Some (Some (Inl poll_timeout_error), snd ?run)"
      unfolding run using ends by (metis prod.collapse)
    show "4 \<le> count_list (snd ?run) CallFetcher"
      by (rule four)
    show "count_list (snd ?run) CallFetcher \<le> count_list (snd ?run) OnPending"
      by (rule each)
    from four each show "4 \<le> count_list (snd ?run) OnPending"
      by linarith
  qed
qed

lemma endpoint_configured: "\<not> get_unconfigured GOOGLE_SHEETS_GET_ENDPOINT"
  unfolding get_unconfigured_def str_includes_def by code_simp

lemma answering_returns:
  "fetchServerResponse plain GOOGLE_SHEETS_GET_ENDPOINT object_id t (fetch (every (answering d)))
     = (Some (Inr d),
        [NetScript (jsonp_url plain GOOGLE_SHEETS_GET_ENDPOINT object_id ''gs_cb_k3x9q2ab'' t)], 0)"
proof -
  have "GOOGLE_SHEETS_GET_ENDPOINT \<noteq> []"
    by (simp add: GOOGLE_SHEETS_GET_ENDPOINT_def)
  then show ?thesis
    by (simp add: fetchServerResponse_def endpoint_configured fetchServerResponseJSONP_def
          every_def answering_def bridge_run del: foldl_Cons)
qed

text \<open>
  The scenario itself: five ticks of a server that answers the bridge at once with the
  pending response, with callbacks that return and timers on time, at the endpoint of
  the source.
\<close>

theorem C6_attempts_bounded_in_timer_range_witness:
  "whole_ms (poll_interval \<lparr>opt_interval = JNum (Fin 10), opt_timeout = JNum (Fin 50)\<rparr>) = Some 10
   \<and> whole_ms (poll_timeout \<lparr>opt_interval = JNum (Fin 10), opt_timeout = JNum (Fin 50)\<rparr>) = Some 50
   \<and> (0::int) < 10 \<and> (10::int) \<le> 2147483647 \<and> (0::int) < 50
   \<and> 5 \<le> length (replicate 5 (every (answering pending_response)))
   \<and> marker_call (calls (every (answering pending_response))) = None
   \<and> final_call (calls (every (answering pending_response))) = None
   \<and> jsonp_ms (fetch (every (answering pending_response)))
        + direct_ms (fetch (every (answering pending_response)))
        + timer_late (every (answering pending_response)) \<le> 6
   \<and> (\<exists>tr. pollServerResponse plain GOOGLE_SHEETS_GET_ENDPOINT ''TOI-700''
               \<lparr>opt_interval = JNum (Fin 10), opt_timeout = JNum (Fin 50)\<rparr> 1000
               (replicate 5 (every (answering pending_response)))
             = Some (Some (Inl poll_timeout_error), tr)
           \<and> 4 \<le> count_list tr OnPending
           \<and> 4 \<le> count_list tr CallFetcher
           \<and> int (count_list tr CallFetcher) \<le> 6)"
proof -
  let ?options = "\<lparr>opt_interval = JNum (Fin 10), opt_timeout = JNum (Fin 50)\<rparr>"
  let ?ticks = "replicate 5 (every (answering pending_response))"
  have opts: "whole_ms (poll_interval ?options) = Some 10" "whole_ms (poll_timeout ?options) = Some 50"
    by (simp_all add: poll_interval_def poll_timeout_def js_or_def whole_ms_def)
  have tick: "marker_call (calls (every (answering pending_response))) = None"
    "final_call (calls (every (answering pending_response))) = None"
    "jsonp_ms (fetch (every (answering pending_response)))
        + direct_ms (fetch (every (answering pending_response)))
        + timer_late (every (answering pending_response)) \<le> 6"
    by (simp_all add: every_def returning_def answering_def)
  have pend: "\<forall>k\<in>set ?ticks.
      (\<forall>t. fst (fetchServerResponse plain GOOGLE_SHEETS_GET_ENDPOINT ''TOI-700'' t (fetch k))
              = Some (Inr pending_response))
      \<and> marker_call (calls k) = None \<and> final_call (calls k) = None
      \<and> jsonp_ms (fetch k) + direct_ms (fetch k) + timer_late k \<le> 6"
    using tick by (simp add: answering_returns)
  note c6 = C6_attempts_bounded_in_timer_range
      [of ?options 10 50 plain GOOGLE_SHEETS_GET_ENDPOINT "''TOI-700''" 1000 ?ticks]
  from c6 opts obtain run where
    run: "pollServerResponse plain GOOGLE_SHEETS_GET_ENDPOINT ''TOI-700'' ?options 1000 ?ticks = Some run"
      "int (count_list (snd run) CallFetcher) \<le> \<lceil>rat_of_int 50 / rat_of_int 10\<rceil> + 1"
    by auto
  from c6 pend obtain tr where
    tr: "pollServerResponse plain GOOGLE_SHEETS_GET_ENDPOINT ''TOI-700'' ?options 1000 ?ticks
           = Some (Some (Inl poll_timeout_error), tr)"
      "4 \<le> count_list tr OnPending" "4 \<le> count_list tr CallFetcher"
    by auto
  from run tr have "int (count_list tr CallFetcher) \<le> 6"
    by auto
  with opts tick tr show ?thesis
    by auto
qed

lemma wrapped_options:
  "pollServerResponse plain GOOGLE_SHEETS_GET_ENDPOINT ''TOI-700''
     \<lparr>opt_interval = JNum (Fin 4294967296), opt_timeout = JNum (Fin 50)\<rparr> 1000 ticks
   = Some (poll_loop plain GOOGLE_SHEETS_GET_ENDPOINT ''TOI-700'' 4294967296 50 1000 ticks 1000)"
  by (simp add: pollServerResponse_def poll_interval_def poll_timeout_def js_or_def whole_ms_def
        del: poll_loop.simps)

lemma scaled_options:
  "pollServerResponse plain GOOGLE_SHEETS_GET_ENDPOINT ''TOI-700''
     \<lparr>opt_interval = JNum (Fin 10), opt_timeout = JNum (Fin 50)\<rparr> 1000 ticks
   = Some (poll_loop plain GOOGLE_SHEETS_GET_ENDPOINT ''TOI-700'' 10 50 1000 ticks 1000)"
  by (simp add: pollServerResponse_def poll_interval_def poll_timeout_def js_or_def whole_ms_def
        del: poll_loop.simps)

lemma wrapped_run:
  "fst (poll_loop plain GOOGLE_SHEETS_GET_ENDPOINT ''TOI-700'' 4294967296 50 1000
          (replicate 4 (late_by 20 (answering pending_response))) 1000)
     = Some (Inl poll_timeout_error)
   \<and> count_list (snd (poll_loop plain GOOGLE_SHEETS_GET_ENDPOINT ''TOI-700'' 4294967296 50 1000
          (replicate 4 (late_by 20 (answering pending_response))) 1000)) CallFetcher = 3"
  by code_simp

lemma wrapped_bound: "\<lceil>rat_of_int 50 / rat_of_int 4294967296\<rceil> + 1 = (2::int)"
proof -
  have "\<lceil>rat_of_int 50 / rat_of_int 4294967296\<rceil> = (1::int)"
    by (rule ceiling_unique) simp_all
  then show ?thesis
    by simp
qed

lemma slow_run:
  "fst (poll_loop plain GOOGLE_SHEETS_GET_ENDPOINT ''TOI-700'' 10 50 1000
          (replicate 5 (late_by 45 (answering pending_response))) 1000)
     = Some (Inl poll_timeout_error)
   \<and> count_list (snd (poll_loop plain GOOGLE_SHEETS_GET_ENDPOINT ''TOI-700'' 10 50 1000
          (replicate 5 (late_by 45 (answering pending_response))) 1000)) OnPending = 2"
  by code_simp

text \<open>
  C6 as stated fails twice. With the interval 4294967296, which the timer reads as 0,
  and timers 20 ms late, the loop calls the fetcher 3 times before the timeout of 50,
  more than ceil(50 / 4294967296) + 1 = 2. With interval 10 and timeout 50 against a
  fetcher that always answers with the pending response, a first sleep 45 ms late leaves
  room for one iteration only: \<open>onPending\<close> is called twice, not 4 times, before the
  loop ends with the timeout error.
\<close>

theorem C6_counterexample:
  "map_option (\<lambda>run. (fst run, count_list (snd run) CallFetcher))
      (pollServerResponse plain GOOGLE_SHEETS_GET_ENDPOINT ''TOI-700''
         \<lparr>opt_interval = JNum (Fin 4294967296), opt_timeout = JNum (Fin 50)\<rparr> 1000
         (replicate 4 (late_by 20 (answering pending_response))))
     = Some (Some (Inl poll_timeout_error), 3)
   \<and> \<lceil>rat_of_int 50 / rat_of_int 4294967296\<rceil> + 1 = (2::int)
   \<and> map_option (\<lambda>run. (fst run, count_list (snd run) OnPending))
      (pollServerResponse plain GOOGLE_SHEETS_GET_ENDPOINT ''TOI-700''
         \<lparr>opt_interval = JNum (Fin 10), opt_timeout = JNum (Fin 50)\<rparr> 1000
         (replicate 5 (late_by 45 (answering pending_response))))
     = Some (Some (Inl poll_timeout_error), 2)"
  unfolding wrapped_options scaled_options
  using wrapped_run slow_run wrapped_bound
  by (simp only: option.map prod.collapse simp_thms)

section \<open>When a response counts as complete\<close>

lemma terminal_field_iff:
  "terminal_field d \<noteq> None \<longleftrightarrow> (\<exists>fs n. d = JObj fs \<and> map_of fs ''procent'' = Some (JNum n))"
  by (cases d) (auto split: option.splits jsval.splits)

lemma poll_attempt_returns:
  assumes "terminal_field d \<noteq> None" and "pending_marker d \<Longrightarrow> marker_call c = None"
  shows "poll_attempt c (Inr d) = (Some (Inr d), if pending_marker d then [OnPending] else [])"
  using assms
  by (cases d) (auto simp: poll_attempt_def Let_def split: option.splits jsval.splits)

lemma poll_attempt_goes_on:
  assumes "terminal_field d = None" and "pending_marker d \<Longrightarrow> marker_call c = None"
    and "final_call c = None"
  shows "poll_attempt c (Inr d) = (None, (if pending_marker d then [OnPending] else []) @ [OnPending])"
  using assms
  by (cases d) (auto simp: poll_attempt_def Let_def split: option.splits jsval.splits)

text \<open>
  C1 as amended. For a response \<open>d\<close> that a fetch of the loop returned, in an iteration
  entered before the timeout and in which the calls of \<open>onPending\<close> that the loop makes
  return: if \<open>d\<close> is an object holding a number under \<open>procent\<close> (any number, finite or
  not), the loop returns \<open>d\<close> at once; in every other case, whatever its \<open>status\<close>, the
  loop calls \<open>onPending\<close>, sleeps and goes on with the next iteration. No other field
  name is looked at.
\<close>

theorem C1_complete_iff_procent_number:
  assumes "int now - int start < timeout"
    and "fetchServerResponse enc endpoint object_id now (fetch k) = (Some (Inr d), evs, ms)"
    and "pending_marker d \<Longrightarrow> marker_call (calls k) = None"
  shows "(terminal_field d \<noteq> None \<longrightarrow>
            poll_loop enc endpoint object_id interval timeout start (k # ks) now
              = (Some (Inr d), CallFetcher # evs @ (if pending_marker d then [OnPending] else [])))
         \<and> (terminal_field d = None \<and> final_call (calls k) = None \<longrightarrow>
            poll_loop enc endpoint object_id interval timeout start (k # ks) now
              = (fst (poll_loop enc endpoint object_id interval timeout start ks
                        (now + ms + timer_delay interval + timer_late k)),
                 CallFetcher # evs @ (if pending_marker d then [OnPending] else []) @ [OnPending]
                   @ snd (poll_loop enc endpoint object_id interval timeout start ks
                            (now + ms + timer_delay interval + timer_late k))))
         \<and> (terminal_field d \<noteq> None
              \<longleftrightarrow> (\<exists>fs n. d = JObj fs \<and> map_of fs ''procent'' = Some (JNum n)))"
proof (intro conjI impI)
  assume c: "terminal_field d \<noteq> None"
  have attempt: "poll_attempt (calls k) (Inr d)
                   = (Some (Inr d), if pending_marker d then [OnPending] else [])"
    using c assms(3) by (rule poll_attempt_returns)
  then have "fst (poll_attempt (calls k) (Inr d)) = Some (Inr d)"
    by simp
  from poll_loop_ends [OF assms(1) assms(2) this, of interval ks]
  show "poll_loop enc endpoint object_id interval timeout start (k # ks) now
              = (Some (Inr d), CallFetcher # evs @ (if pending_marker d then [OnPending] else []))"
    unfolding attempt by simp
next
  assume p: "terminal_field d = None \<and> final_call (calls k) = None"
  have attempt: "poll_attempt (calls k) (Inr d)
                   = (None, (if pending_marker d then [OnPending] else []) @ [OnPending])"
    using p assms(3) by (intro poll_attempt_goes_on) simp_all
  then have "fst (poll_attempt (calls k) (Inr d)) = None"
    by simp
  from poll_loop_continue [OF assms(1) assms(2) this, of interval ks]
  show "poll_loop enc endpoint object_id interval timeout start (k # ks) now
              = (fst (poll_loop enc endpoint object_id interval timeout start ks
                        (now + ms + timer_delay interval + timer_late k)),
                 CallFetcher # evs @ (if pending_marker d then [OnPending] else []) @ [OnPending]
                   @ snd (poll_loop enc endpoint object_id interval timeout start ks
                            (now + ms + timer_delay interval + timer_late k)))"
    unfolding attempt by simp
next
  show "terminal_field d \<noteq> None
          \<longleftrightarrow> (\<exists>fs n. d = JObj fs \<and> map_of fs ''procent'' = Some (JNum n))"
    by (rule terminal_field_iff)
qed

theorem C1_complete_iff_procent_number_witness:
  "int 1000 - int 1000 < 50
   \<and> fetchServerResponse plain GOOGLE_SHEETS_GET_ENDPOINT ''TOI-700'' 1000
        (fetch (every (answering complete_response)))
       = (Some (Inr complete_response),
          [NetScript (jsonp_url plain GOOGLE_SHEETS_GET_ENDPOINT ''TOI-700'' ''gs_cb_k3x9q2ab'' 1000)], 0)
   \<and> marker_call (calls (every (answering complete_response))) = None
   \<and> terminal_field complete_response = Some (Fin (436 / 5))
   \<and> poll_loop plain GOOGLE_SHEETS_GET_ENDPOINT ''TOI-700'' 10 50 1000
        [every (answering complete_response)] 1000
       = (Some (Inr complete_response),
          [CallFetcher,
           NetScript (jsonp_url plain GOOGLE_SHEETS_GET_ENDPOINT ''TOI-700'' ''gs_cb_k3x9q2ab'' 1000)])"
proof -
  have in_time: "int 1000 - int 1000 < (50::int)"
    by simp
  have returns: "marker_call (calls (every (answering complete_response))) = None"
    by (simp add: every_def returning_def)
  have field: "terminal_field complete_response = Some (Fin (436 / 5))"
    by (simp add: complete_response_def)
  have marker: "\<not> pending_marker complete_response"
    by (simp add: complete_response_def)
  show ?thesis
    using C1_complete_iff_procent_number [OF in_time answering_returns returns,
        where interval = 10 and ks = "[]"]
      in_time returns field marker
    by (simp add: answering_returns del: poll_loop.simps)
qed

text \<open>
  C1 as stated fails on both sides: a response with the finite number 87.2 under
  \<open>percent\<close> is passed over (the loop returns the response of the next iteration), and a
  response whose \<open>procent\<close> is infinite is returned as the result.
\<close>

theorem C1_counterexample:
  "fst (poll_loop plain GOOGLE_SHEETS_GET_ENDPOINT ''TOI-700'' 10 50 1000
          [every (answering percent_response), every (answering complete_response)] 1000)
     = Some (Inr complete_response)
   \<and> fst (poll_loop plain GOOGLE_SHEETS_GET_ENDPOINT ''TOI-700'' 10 50 1000
          [every (answering infinite_response), every (answering complete_response)] 1000)
     = Some (Inr infinite_response)"
  by code_simp

section \<open>Pending responses\<close>

text \<open>
  A response with neither the pending marker nor a terminal field makes one call of
  \<open>onPending\<close>.
\<close>

lemma implicit_pending_once:
  "terminal_field d = None \<Longrightarrow> \<not> pending_marker d \<Longrightarrow> final_call c = None
     \<Longrightarrow> poll_attempt c (Inr d) = (None, [OnPending])"
  by (cases d) (auto simp: poll_attempt_def Let_def split: option.splits jsval.splits)

text \<open>
  C5 at a response with the explicit pending marker and no terminal field: the iteration
  calls \<open>onPending\<close> twice, once for the marker and once more at the end of the
  \<open>try\<close> body.
\<close>

theorem C5_explicit_pending_calls_onPending_twice:
  "poll_attempt returning (Inr (JObj [(''status'', JStr ''pending'')]))
     = (None, [OnPending, OnPending])
   \<and> filter (\<lambda>e. \<not> is_network e)
        (snd (poll_loop plain GOOGLE_SHEETS_GET_ENDPOINT ''TOI-700'' 10 50 1000
                [every (answering (JObj [(''status'', JStr ''pending'')]))] 1000))
       = [CallFetcher, OnPending, OnPending]"
  by code_simp

section \<open>The fallback of the fetcher\<close>

text \<open>
  With a configured endpoint the bridge is tried first; when it fails, whatever the
  failure, the direct transport is tried next and its outcome, an error or not, is the
  fetcher's. For an endpoint without a query the direct URL is the bridge's URL without
  the callback parameter.
\<close>

lemma fetcher_bridge_then_direct:
  assumes "\<not> get_unconfigured endpoint"
  shows "\<exists>b. settled (fst (fetchServerResponseJSONP enc endpoint object_id now (jsonp w))) = Some b
           \<and> fetchServerResponse enc endpoint object_id now w =
               (case b of
                  Inr data \<Rightarrow>
                    (Some (Inr data),
                     [NetScript (jsonp_url enc endpoint object_id (''gs_cb_'' @ token (jsonp w)) now)],
                     jsonp_ms w)
                | Inl jsonpErr \<Rightarrow>
                    (Some (direct_result (direct w)),
                     [NetScript (jsonp_url enc endpoint object_id (''gs_cb_'' @ token (jsonp w)) now),
                      NetGet (direct_url enc endpoint object_id (now + jsonp_ms w))],
                     jsonp_ms w + direct_ms w))"
proof -
  from assms have ne: "endpoint \<noteq> []"
    by (auto simp: get_unconfigured_def)
  obtain b where b: "settled (fst (fetchServerResponseJSONP enc endpoint object_id now (jsonp w))) = Some b"
    using jsonp_settles [of enc endpoint object_id now "jsonp w"] by auto
  show ?thesis
    using assms ne b
    by (intro exI [of _ b])
       (auto simp: fetchServerResponse_def fetchServerResponseJSONP_def split: sum.splits)
qed

lemma direct_url_drops_callback:
  assumes "\<not> str_includes endpoint ''?''"
  shows "\<exists>pre. jsonp_url enc endpoint object_id callbackName t
                 = pre @ ''&callback='' @ callbackName @ ''&ts='' @ dec t
             \<and> direct_url enc endpoint object_id t' = pre @ ''&ts='' @ dec t'"
  using assms
  by (intro exI [of _ "endpoint @ ''?object_id='' @ enc object_id"])
     (simp add: jsonp_url_def direct_url_def)

text \<open>
  C3 at a configured endpoint that carries a query: the bridge joins its parameters with
  \<open>&\<close>, the direct transport joins them with a second \<open>?\<close>, so the URL of the
  fallback is not the bridge's URL without the callback parameter.
\<close>

theorem C3_fallback_url_with_query_endpoint:
  "fetchServerResponse plain query_endpoint ''TOI-700'' 1000 failing
     = (Some (Inl (JsError ''Error'' ''GET failed (404): Not Found'')),
        [NetScript ''https://script.google.com/macros/s/AKfycb/exec?sheet=ServerResponses&object_id=TOI-700&callback=gs_cb_k3x9q2ab&ts=1000'',
         NetGet ''https://script.google.com/macros/s/AKfycb/exec?sheet=ServerResponses?object_id=TOI-700&ts=1003''],
        5)"
  by code_simp

section \<open>The range of the local estimator\<close>

text \<open>
  When \<open>snr\<close> and \<open>transit_depth\<close> parse to \<open>NaN\<close> (missing or not numeric) or to a
  number that is not negative, each factor lies in [0, 1], the probability in [0.3, 0.9],
  and the output passes \<open>validateResponse\<close>.
\<close>

lemma factor_range:
  assumes "x = NaN \<or> js_ge x (Fin 0)" and "0 < d" and "0 < c"
  shows "\<exists>f. math_min (div_pos (num_or x (Fin d)) c) (Fin 1) = Fin f \<and> 0 \<le> f \<and> f \<le> 1"
proof (cases x)
  case NaN
  with assms show ?thesis by (auto simp: num_or_def)
next
  case NegInf
  with assms show ?thesis by simp
next
  case (Fin a)
  with assms show ?thesis by (auto simp: num_or_def)
next
  case PosInf
  then show ?thesis by (simp add: num_or_def)
qed

lemma rounded_range:
  assumes "0 \<le> f" "f \<le> 1" "0 \<le> g" "g \<le> 1"
  shows "\<exists>p. div_pos (math_round (mul_pos (js_add (js_add (Fin (3 / 10)) (mul_pos (Fin f) (3 / 10)))
                   (mul_pos (Fin g) (3 / 10))) 1000)) 1000 = Fin p
             \<and> 3 / 10 \<le> p \<and> p \<le> 9 / 10"
proof -
  define b where "b = (3 / 10 + f * (3 / 10) + g * (3 / 10)) * 1000 + 1 / 2"
  define n where "n = \<lfloor>b\<rfloor>"
  from assms have "rat_of_int 300 \<le> b" and "b < rat_of_int 901"
    by (simp_all add: b_def)
  then have "300 \<le> n" and "n < 901"
    unfolding n_def by (simp_all only: le_floor_iff floor_less_iff)
  then have bounds: "3 / 10 \<le> rat_of_int n / 1000" "rat_of_int n / 1000 \<le> 9 / 10"
    by simp_all
  have "div_pos (math_round (mul_pos (js_add (js_add (Fin (3 / 10)) (mul_pos (Fin f) (3 / 10)))
                   (mul_pos (Fin g) (3 / 10))) 1000)) 1000 = Fin (rat_of_int n / 1000)"
    unfolding n_def b_def by simp
  with bounds show ?thesis by blast
qed

lemma mockInfer_range:
  assumes "parseFloat (get_prop (JObj formData) ''snr'') = NaN
           \<or> js_ge (parseFloat (get_prop (JObj formData) ''snr'')) (Fin 0)"
    and "parseFloat (get_prop (JObj formData) ''transit_depth'') = NaN
           \<or> js_ge (parseFloat (get_prop (JObj formData) ''transit_depth'')) (Fin 0)"
  shows "\<exists>p. get_prop (mockInfer to_str time_str formData) ''probability'' = JNum (Fin p)
             \<and> 3 / 10 \<le> p \<and> p \<le> 9 / 10
             \<and> validateResponse (mockInfer to_str time_str formData) = JBool True"
proof -
  obtain f where f: "math_min (div_pos (num_or (parseFloat (get_prop (JObj formData) ''snr'')) (Fin 10)) 20) (Fin 1) = Fin f"
    "0 \<le> f" "f \<le> 1"
    using factor_range [OF assms(1), of 10 20] by auto
  obtain g where g: "math_min (div_pos (num_or (parseFloat (get_prop (JObj formData) ''transit_depth'')) (Fin 5000)) 10000) (Fin 1) = Fin g"
    "0 \<le> g" "g \<le> 1"
    using factor_range [OF assms(2), of 5000 10000] by auto
  obtain p where p: "div_pos (math_round (mul_pos (js_add (js_add (Fin (3 / 10)) (mul_pos (Fin f) (3 / 10)))
                   (mul_pos (Fin g) (3 / 10))) 1000)) 1000 = Fin p" "3 / 10 \<le> p" "p \<le> 9 / 10"
    using rounded_range [OF f(2,3) g(2,3)] by auto
  have prob: "get_prop (mockInfer to_str time_str formData) ''probability'' = JNum (Fin p)"
    using p(1) by (simp add: mockInfer_def Let_def f(1) g(1) del: get_prop.simps mul_pos.simps js_add.simps math_round.simps div_pos.simps) simp
  have rest: "js_typeof (get_prop (mockInfer to_str time_str formData) ''summary'') = ''string''"
    "is_array (get_prop (mockInfer to_str time_str formData) ''data_comments'')"
    "truthy (mockInfer to_str time_str formData)"
    by (simp_all add: mockInfer_def Let_def)
  from p(2,3) have "js_ge (Fin p) (Fin 0)" "js_le (Fin p) (Fin 1)"
    by simp_all
  with prob rest have "validateResponse (mockInfer to_str time_str formData) = JBool True"
    by (simp add: validateResponse_def del: js_ge.simps js_le.simps)
  with prob p(2,3) show ?thesis by blast
qed

lemma parse_negative: "parse_float_str ''-100'' = Fin (- 100)"
  by (simp add: parse_float_str_def is_space_def is_digit_def digits_val_def digit_val_def
        pow10_def parse_exponent_def)

lemma parse_depth: "parse_float_str ''5000'' = Fin 5000"
  by (simp add: parse_float_str_def is_space_def is_digit_def digits_val_def digit_val_def
        pow10_def parse_exponent_def)

lemma floor_negative_half: "\<lfloor>- (2099 / 2 :: rat)\<rfloor> = - 1050"
  by (rule floor_unique) simp_all

lemma negative_probability:
  "get_prop (mockInfer field_text ''12:00:00'' negative_snr_form) ''probability'' = JNum (Fin (- 21 / 20))"
  by (simp add: mockInfer_def negative_snr_form_def parse_negative parse_depth num_or_def Let_def
        floor_negative_half)

text \<open>
  C10 at a form whose signal-to-noise ratio is the text \<open>-100\<close>: the estimator returns
  the probability -1.05, and \<open>validateResponse\<close> rejects its output.
\<close>

theorem C10_negative_snr_fails_validation:
  "get_prop (mockInfer field_text ''12:00:00'' negative_snr_form) ''probability'' = JNum (Fin (- 21 / 20))
   \<and> validateResponse (mockInfer field_text ''12:00:00'' negative_snr_form) = JBool False"
proof
  show p: "get_prop (mockInfer field_text ''12:00:00'' negative_snr_form) ''probability'' = JNum (Fin (- 21 / 20))"
    by (rule negative_probability)
  have "truthy (mockInfer field_text ''12:00:00'' negative_snr_form)"
    by (simp add: mockInfer_def Let_def)
  with p show "validateResponse (mockInfer field_text ''12:00:00'' negative_snr_form) = JBool False"
    by (simp add: validateResponse_def)
qed

end
